theory Spec2Isabelle
  imports Main
begin

section \<open>The model router (model-router/index.js)\<close>

text \<open>
  The router keeps its providers in the object \<open>this.models\<close>. Its property keys are
  distinct strings and \<open>Object.entries\<close> walks them in insertion order, so the object is
  an association list in that order. A provider object is referred to by its key: every key
  holds an object of its own, so the reference comparisons of the source are comparisons of
  keys. JavaScript strings are lists of code units; \<open>prompt.length\<close> is the length of
  that list.
\<close>

subsection \<open>RoundRobinLoadBalancer\<close>

text \<open>
  \<open>currentIndex\<close> is a JavaScript number. It starts at 0; with an empty endpoint list
  \<open>(currentIndex + 1) % 0\<close> is \<open>NaN\<close>, written \<open>None\<close> here, and
  \<open>endpoints[NaN]\<close> is \<open>undefined\<close>, as is a read past the end of the array.
\<close>

record RoundRobinLoadBalancer =
  endpoints :: "string list"
  currentIndex :: "nat option"

definition newRoundRobinLoadBalancer :: "string list \<Rightarrow> RoundRobinLoadBalancer" where
  "newRoundRobinLoadBalancer eps = \<lparr>endpoints = eps, currentIndex = Some 0\<rparr>"

definition getNextEndpoint :: "RoundRobinLoadBalancer \<Rightarrow> string option \<times> RoundRobinLoadBalancer" where
  "getNextEndpoint lb =
     (case currentIndex lb of
        None \<Rightarrow> (None, lb)
      | Some i \<Rightarrow>
          (if i < length (endpoints lb) then Some (endpoints lb ! i) else None,
           lb\<lparr>currentIndex :=
                 (if length (endpoints lb) = 0 then None
                  else Some ((i + 1) mod length (endpoints lb)))\<rparr>))"

text \<open>\<open>calls k lb\<close>: the endpoints returned by \<open>k\<close> successive calls, and the balancer after them.\<close>

fun calls :: "nat \<Rightarrow> RoundRobinLoadBalancer \<Rightarrow> string option list \<times> RoundRobinLoadBalancer" where
  "calls 0 lb = ([], lb)"
| "calls (Suc k) lb =
     (let (e, lb1) = getNextEndpoint lb; (es, lb2) = calls k lb1 in (e # es, lb2))"

subsection \<open>Provider objects\<close>

text \<open>
  \<open>config.max_tokens\<close> is absent from the \<open>hfHub\<close> entry (it has
  \<open>max_new_tokens\<close>); reading it gives \<open>undefined\<close>, written \<open>None\<close>, and every
  comparison of \<open>undefined\<close> with a number is false. The sampling parameters of
  \<open>config\<close> are floating-point numbers that only travel to the provider in the request
  body; they are left out.
\<close>

record model =
  name :: string
  endpoint :: string
  healthEndpoint :: string
  config_model :: "string option"
  max_tokens :: "nat option"
  capabilities :: "string list"
  loadBalancer :: RoundRobinLoadBalancer
  isHealthy :: bool
  lastHealthCheck :: nat

type_synonym models = "(string \<times> model) list"

text \<open>\<open>initializeModels\<close>, with the value of \<open>Date.now()\<close> as a parameter.\<close>

definition initializeModels :: "nat \<Rightarrow> models" where
  "initializeModels now =
     [(''gemma3'',
        \<lparr>name = ''Google Gemma 3'',
         endpoint = ''http://gemma3:8000/v1/completions'',
         healthEndpoint = ''http://gemma3:8000/health'',
         config_model = Some ''google/gemma-2b-it'',
         max_tokens = Some 2048,
         capabilities = [''text-generation'', ''code-generation'', ''analysis''],
         loadBalancer = newRoundRobinLoadBalancer [''http://gemma3:8000''],
         isHealthy = True,
         lastHealthCheck = now\<rparr>),
      (''chatterbox'',
        \<lparr>name = ''Chatterbox AI'',
         endpoint = ''http://chatterbox:8000/v1/completions'',
         healthEndpoint = ''http://chatterbox:8000/health'',
         config_model = Some ''chatterbox-ai/chatterbox-7b'',
         max_tokens = Some 4096,
         capabilities = [''conversation'', ''roleplay'', ''character-interaction''],
         loadBalancer = newRoundRobinLoadBalancer [''http://chatterbox:8000''],
         isHealthy = True,
         lastHealthCheck = now\<rparr>),
      (''hfHub'',
        \<lparr>name = ''Hugging Face Hub'',
         endpoint = ''http://hf-hub:80/generate'',
         healthEndpoint = ''http://hf-hub:80/health'',
         config_model = None,
         max_tokens = None,
         capabilities = [''text-generation'', ''specialized-tasks''],
         loadBalancer = newRoundRobinLoadBalancer [''http://hf-hub:80''],
         isHealthy = True,
         lastHealthCheck = now\<rparr>)]"

subsection \<open>selectOptimalModel\<close>

text \<open>The score the loop body computes for the entry \<open>(name, model)\<close>.\<close>

definition score :: "string \<Rightarrow> string \<Rightarrow> string \<times> model \<Rightarrow> nat" where
  "score type prompt e =
     (case e of (nm, m) \<Rightarrow>
        (if type \<in> set (capabilities m) then 20 else 0)
      + (if nm = ''chatterbox'' \<and> type = ''conversation'' then 15 else 0)
      + (if nm = ''gemma3'' \<and> type = ''analysis'' then 10 else 0)
      + (if nm = ''hfHub'' \<and> type = ''specialized'' then 10 else 0)
      + (if length prompt > 1000 \<and> (case max_tokens m of None \<Rightarrow> False | Some t \<Rightarrow> t > 2048)
         then 5 else 0)
      + (if length prompt < 500 \<and> (case max_tokens m of None \<Rightarrow> False | Some t \<Rightarrow> t \<le> 1024)
         then 3 else 0)
      + 5)"

text \<open>
  The \<open>for\<close> loop over \<open>Object.entries(this.models)\<close>, with the pair
  \<open>(bestModel, bestScore)\<close> as accumulator; \<open>bestModel = null\<close> is \<open>None\<close>.
\<close>

fun select_loop :: "string \<Rightarrow> string \<Rightarrow> models \<Rightarrow> string option \<times> nat \<Rightarrow> string option \<times> nat" where
  "select_loop type prompt [] acc = acc"
| "select_loop type prompt (e # rest) (bestModel, bestScore) =
     (if \<not> isHealthy (snd e) then select_loop type prompt rest (bestModel, bestScore)
      else if score type prompt e > bestScore
           then select_loop type prompt rest (Some (fst e), score type prompt e)
           else select_loop type prompt rest (bestModel, bestScore))"

text \<open>
  The provider stored under an own key of \<open>this.models\<close>, \<open>None\<close> when there is no
  such key: what a loop over \<open>Object.entries\<close> sees, and what the read
  \<open>this.models.gemma3\<close> gives (\<open>gemma3\<close> is no property of \<open>Object.prototype\<close>).
  The read \<open>this.models[model]\<close> of a request's model string also reaches inherited
  properties; it is \<open>property\<close> below.
\<close>

definition lookup :: "models \<Rightarrow> string \<Rightarrow> model option" where
  "lookup ms k = map_of ms k"

text \<open>\<open>healthy ms k\<close>: the provider with key \<open>k\<close> is registered and its flag is true.\<close>

definition healthy :: "models \<Rightarrow> string \<Rightarrow> bool" where
  "healthy ms k = (case lookup ms k of Some m \<Rightarrow> isHealthy m | None \<Rightarrow> False)"

text \<open>
  \<open>return bestModel || this.models.gemma3\<close>: the result is the key of the object
  returned, \<open>None\<close> when the expression is \<open>undefined\<close>.
\<close>

definition selectOptimalModel :: "models \<Rightarrow> string \<Rightarrow> string \<Rightarrow> string option" where
  "selectOptimalModel ms type prompt =
     (case fst (select_loop type prompt ms (None, 0)) of
        Some k \<Rightarrow> Some k
      | None \<Rightarrow> (case lookup ms ''gemma3'' of Some m \<Rightarrow> Some ''gemma3'' | None \<Rightarrow> None))"

subsection \<open>checkModelHealth\<close>

text \<open>
  The outcome of \<open>axios.get(model.healthEndpoint, {timeout: 5000})\<close>: the promise
  resolves with a response that has a status, or it rejects (network error, timeout, or a
  status that axios refuses).
\<close>

datatype probe = Response nat | Rejected

definition check_one :: "probe \<Rightarrow> nat \<Rightarrow> model \<Rightarrow> model" where
  "check_one p now m =
     (case p of
        Response st \<Rightarrow> m\<lparr>isHealthy := (st = 200), lastHealthCheck := now\<rparr>
      | Rejected \<Rightarrow> m\<lparr>isHealthy := False, lastHealthCheck := now\<rparr>)"

text \<open>
  One run of \<open>checkModelHealth\<close>: \<open>probes k\<close> is the outcome of the request made for
  the entry with key \<open>k\<close> in this run and \<open>clock k\<close> the value \<open>Date.now()\<close> has
  when that entry is written.
\<close>

definition checkModelHealth :: "(string \<Rightarrow> probe) \<Rightarrow> (string \<Rightarrow> nat) \<Rightarrow> models \<Rightarrow> models" where
  "checkModelHealth probes clock ms = map (\<lambda>(k, m). (k, check_one (probes k) (clock k) m)) ms"

subsection \<open>generateContent\<close>

text \<open>
  The errors a call of \<open>generateContent\<close> can end with: its three
  \<open>throw new Error(...)\<close>, and the \<open>TypeError\<close> of calling something that is not
  a function, with the name of what was called.
\<close>

datatype error = ModelNotFound string | NoHealthyModels | AllModelsUnavailable | NotAFunction string

fun message :: "error \<Rightarrow> string" where
  "message (ModelNotFound m) = ''Model '' @ m @ '' not found''"
| "message NoHealthyModels = ''No healthy models available''"
| "message AllModelsUnavailable = ''All models unavailable''"
| "message (NotAFunction f) = f @ '' is not a function''"

text \<open>What \<open>processResponse\<close> returns: the text and the provider's display name.\<close>

record generation =
  content :: string
  served_by :: string

text \<open>
  \<open>this.models[model]\<close> for the model string of a request. \<open>this.models\<close> is an object
  literal, so a name that is no key of its own is looked up in \<open>Object.prototype\<close>:
  each of the names below gives a function (\<open>__proto__\<close> gives the prototype itself), a
  value that is truthy and has no \<open>isHealthy\<close>. Every other name gives
  \<open>undefined\<close>. A value read from \<open>this.models\<close> is thus the provider object under
  an own key, or an inherited value.
\<close>

definition object_prototype :: "string list" where
  "object_prototype =
     [''constructor'', ''__defineGetter__'', ''__defineSetter__'', ''hasOwnProperty'',
      ''__lookupGetter__'', ''__lookupSetter__'', ''isPrototypeOf'', ''propertyIsEnumerable'',
      ''toString'', ''valueOf'', ''__proto__'', ''toLocaleString'']"

datatype reference = Own string | Inherited string

definition property :: "models \<Rightarrow> string \<Rightarrow> reference option" where
  "property ms nm =
     (if nm \<in> set (map fst ms) then Some (Own nm)
      else if nm \<in> set object_prototype then Some (Inherited nm)
      else None)"

text \<open>
  \<open>const selectedModel = model === 'auto' ? this.selectOptimalModel(type, prompt) :
  this.models[model]\<close>; \<open>None\<close> is \<open>undefined\<close>.
\<close>

definition resolve :: "models \<Rightarrow> string \<Rightarrow> string \<Rightarrow> string \<Rightarrow> reference option" where
  "resolve ms model type prompt =
     (if model = ''auto''
      then (case selectOptimalModel ms type prompt of None \<Rightarrow> None | Some k \<Rightarrow> property ms k)
      else property ms model)"

text \<open>\<open>selectedModel.isHealthy\<close>, read as a condition: \<open>undefined\<close> on an inherited value.\<close>

fun is_healthy :: "models \<Rightarrow> reference \<Rightarrow> bool" where
  "is_healthy ms (Own k) = healthy ms k"
| "is_healthy ms (Inherited nm) = False"

text \<open>\<open>model.name\<close> of the provider with key \<open>k\<close>, as \<open>processResponse\<close> reads it.\<close>

definition display_name :: "models \<Rightarrow> string \<Rightarrow> string" where
  "display_name ms k = (case lookup ms k of Some m \<Rightarrow> name m | None \<Rightarrow> [])"

text \<open>An assignment to a field of the provider object with key \<open>k\<close>.\<close>

definition update_model :: "string \<Rightarrow> (model \<Rightarrow> model) \<Rightarrow> models \<Rightarrow> models" where
  "update_model k f ms = map (\<lambda>(k', m). if k' = k then (k', f m) else (k', m)) ms"

text \<open>
  \<open>selectedModel.loadBalancer.getNextEndpoint()\<close> moves the balancer of the selected
  provider on; the endpoint it returns only names the address the request goes to.
\<close>

definition take_endpoint :: "string \<Rightarrow> models \<Rightarrow> models" where
  "take_endpoint k ms =
     update_model k (\<lambda>m. m\<lparr>loadBalancer := snd (getNextEndpoint (loadBalancer m))\<rparr>) ms"

text \<open>\<open>selectedModel.isHealthy = false\<close>, in the \<open>catch\<close> block.\<close>

definition mark_unhealthy :: "string \<Rightarrow> models \<Rightarrow> models" where
  "mark_unhealthy k ms = update_model k (\<lambda>m. m\<lparr>isHealthy := False\<rparr>) ms"

text \<open>
  \<open>Object.keys(this.models).find(key => this.models[key] === fallbackModel)\<close>: the key
  of the object, or \<open>undefined\<close> when it is not a provider of this router, and then the
  default \<open>model = 'auto'\<close> of the callee applies.
\<close>

definition key_of :: "models \<Rightarrow> string \<Rightarrow> string" where
  "key_of ms f = (if f \<in> set (map fst ms) then f else ''auto'')"

text \<open>
  \<open>generateContent\<close> calls \<open>this.findFallbackModel(selectedModel)\<close>. What that call
  does is the parameter \<open>fb\<close>, a function of the providers as they are at the call and
  of the value passed: \<open>Inl e\<close> when the call throws \<open>e\<close>, \<open>Inr None\<close> when it
  returns something falsy, \<open>Inr (Some f)\<close> when it returns the provider with key \<open>f\<close>
  (or, for an \<open>f\<close> that is no key, some other truthy value).

  The network is the parameter \<open>post\<close>: \<open>post c k\<close> is the outcome of the \<open>c\<close>-th
  \<open>axios.post\<close> of the request (counted from 0), sent to the provider with key \<open>k\<close>:
  \<open>Some text\<close> when the call resolves and \<open>processResponse\<close> returns that text,
  \<open>None\<close> when anything inside the \<open>try\<close> block throws.

  The function is suspended at \<open>await axios.post\<close> and nowhere else. What the rest of
  the program (health-check ticks, other requests) does to the providers meanwhile is the
  parameter \<open>during\<close>: \<open>during c\<close> takes the providers as they are when the \<open>c\<close>-th
  call is sent to the providers as they are when its outcome arrives.

  For some \<open>fb\<close> the recursion need not end, so the function takes fuel; the first
  component of the result is \<open>None\<close> when the fuel runs out. The second component is the
  providers when the call ends, the third the providers the call sent a request to, in
  order, each with whether the request succeeded. The pass-through options (temperature,
  maxTokens, stream) only shape the request body and are left out.
\<close>

type_synonym fallback = "models \<Rightarrow> reference \<Rightarrow> error + string option"
type_synonym network = "nat \<Rightarrow> string \<Rightarrow> string option"
type_synonym interference = "nat \<Rightarrow> models \<Rightarrow> models"
type_synonym outcome = "(error + generation) option \<times> models \<times> (string \<times> bool) list"

fun generateContent ::
  "nat \<Rightarrow> fallback \<Rightarrow> network \<Rightarrow> interference \<Rightarrow> nat \<Rightarrow> models \<Rightarrow> string \<Rightarrow> string \<Rightarrow> string
     \<Rightarrow> outcome" where
  "generateContent 0 fb post during c ms prompt model type = (None, ms, [])"
| "generateContent (Suc n) fb post during c ms prompt model type =
     (case resolve ms model type prompt of
        None \<Rightarrow> (Some (Inl (ModelNotFound model)), ms, [])
      | Some (Inherited nm) \<Rightarrow>
          (case fb ms (Inherited nm) of
             Inl e \<Rightarrow> (Some (Inl e), ms, [])
           | Inr None \<Rightarrow> (Some (Inl NoHealthyModels), ms, [])
           | Inr (Some f) \<Rightarrow>
               generateContent n fb post during c ms prompt (key_of ms f) type)
      | Some (Own k) \<Rightarrow>
          if \<not> healthy ms k then
            (case fb ms (Own k) of
               Inl e \<Rightarrow> (Some (Inl e), ms, [])
             | Inr None \<Rightarrow> (Some (Inl NoHealthyModels), ms, [])
             | Inr (Some f) \<Rightarrow>
                 generateContent n fb post during c ms prompt (key_of ms f) type)
          else
            let ms1 = during c (take_endpoint k ms)
            in (case post c k of
                  Some text \<Rightarrow>
                    (Some (Inr \<lparr>content = text, served_by = display_name ms k\<rparr>), ms1,
                     [(k, True)])
                | None \<Rightarrow>
                    let ms2 = mark_unhealthy k ms1
                    in (case fb ms2 (Own k) of
                          Inl e \<Rightarrow> (Some (Inl e), ms2, [(k, False)])
                        | Inr None \<Rightarrow> (Some (Inl AllModelsUnavailable), ms2, [(k, False)])
                        | Inr (Some f) \<Rightarrow>
                            (case generateContent n fb post during (Suc c) ms2 prompt
                                    (key_of ms2 f) type of
                               (r, ms3, tr) \<Rightarrow> (r, ms3, (k, False) # tr)))))"

text \<open>
  The class as it stands: no file of the repository defines a method
  \<open>findFallbackModel\<close>, so \<open>this.findFallbackModel\<close> is \<open>undefined\<close> and the call
  throws \<open>TypeError: this.findFallbackModel is not a function\<close>.
\<close>

definition findFallbackModel :: fallback where
  "findFallbackModel ms r = Inl (NotAFunction ''this.findFallbackModel'')"

text \<open>Nothing else touches the providers while a request waits.\<close>

definition alone :: interference where
  "alone c ms = ms"

subsection \<open>The route POST /generate\<close>

text \<open>\<open>!v\<close> for a field that is absent or a string: true when absent or empty.\<close>

definition falsy :: "string option \<Rightarrow> bool" where
  "falsy v = (v = None \<or> v = Some [])"

text \<open>
  The fields of \<open>req.body\<close> the handler reads; \<open>None\<close> is an absent field. \<open>options\<close>
  is spread after \<open>model\<close> and \<open>type\<close>, so its own \<open>model\<close> and \<open>type\<close> win.
\<close>

record generate_body =
  body_prompt :: "string option"
  body_model :: "string option"
  body_type :: "string option"
  options_model :: "string option"
  options_type :: "string option"

record http_response =
  status :: nat
  error_text :: "string option"
  message_text :: "string option"
  payload :: "generation option"

text \<open>
  The handler: the response sent, the providers after it and the providers a request was
  sent to. A result of \<open>generateContent\<close> is answered with 200, an error it throws with
  500 and its message; there is no response while \<open>generateContent\<close> has not returned.
\<close>

definition post_generate ::
  "nat \<Rightarrow> fallback \<Rightarrow> network \<Rightarrow> interference \<Rightarrow> models \<Rightarrow> generate_body
     \<Rightarrow> http_response option \<times> models \<times> (string \<times> bool) list" where
  "post_generate n fb post during ms b =
     (if falsy (body_prompt b) then
        (Some \<lparr>status = 400, error_text = Some ''Prompt is required'', message_text = None,
               payload = None\<rparr>, ms, [])
      else
        let model = (case options_model b of Some m \<Rightarrow> m
                     | None \<Rightarrow> (case body_model b of Some m \<Rightarrow> m | None \<Rightarrow> ''auto''));
            type = (case options_type b of Some t \<Rightarrow> t
                    | None \<Rightarrow> (case body_type b of Some t \<Rightarrow> t | None \<Rightarrow> ''general''))
        in (case generateContent n fb post during 0 ms (the (body_prompt b)) model type of
              (None, ms', tr) \<Rightarrow> (None, ms', tr)
            | (Some (Inr g), ms', tr) \<Rightarrow>
                (Some \<lparr>status = 200, error_text = None, message_text = None, payload = Some g\<rparr>,
                 ms', tr)
            | (Some (Inl e), ms', tr) \<Rightarrow>
                (Some \<lparr>status = 500, error_text = Some ''Generation failed'',
                       message_text = Some (message e), payload = None\<rparr>, ms', tr)))"

section \<open>The RunPod proxy (runpod-integration/server.js)\<close>

text \<open>
  The handler of \<open>POST /generate\<close>. \<open>RUNPOD_API_KEY\<close> is read from the environment at
  start-up; an unset or empty variable is falsy. The call to the RunPod endpoint is the
  parameter \<open>runsync\<close>: \<open>Inr data\<close> when it resolves, \<open>Inl (status, message)\<close> when it
  throws, with the status of the upstream response if there was one. The result is the
  response and the endpoints a request was sent to.
\<close>

record runpod_body =
  rp_prompt :: "string option"
  rp_endpointId :: "string option"

record runpod_response =
  rp_status :: nat
  rp_error :: "string option"
  rp_data :: "string option"

definition runpod_generate ::
  "string option \<Rightarrow> (string \<Rightarrow> string \<Rightarrow> (nat option \<times> string) + string) \<Rightarrow> runpod_body
     \<Rightarrow> runpod_response \<times> string list" where
  "runpod_generate RUNPOD_API_KEY runsync b =
     (if falsy RUNPOD_API_KEY then
        (\<lparr>rp_status = 503, rp_error = Some ''RunPod API key not configured'', rp_data = None\<rparr>, [])
      else if falsy (rp_prompt b) then
        (\<lparr>rp_status = 400, rp_error = Some ''Prompt is required'', rp_data = None\<rparr>, [])
      else if falsy (rp_endpointId b) then
        (\<lparr>rp_status = 400, rp_error = Some ''RunPod endpoint ID is required'', rp_data = None\<rparr>, [])
      else
        (case runsync (the (rp_endpointId b)) (the (rp_prompt b)) of
           Inr d \<Rightarrow> (\<lparr>rp_status = 200, rp_error = None, rp_data = Some d\<rparr>, [the (rp_endpointId b)])
         | Inl (st, msg) \<Rightarrow>
             (\<lparr>rp_status = (case st of Some s \<Rightarrow> if s = 0 then 500 else s | None \<Rightarrow> 500),
               rp_error = Some msg,
               rp_data = None\<rparr>, [the (rp_endpointId b)])))"

section \<open>The rate limiter\<close>

text \<open>
  Modelled from the spec: the router's limiter is \<open>RateLimiterRedis\<close> of the package
  rate-limiter-flexible, whose code is not in the repository; only its construction
  (\<open>points: 100\<close>, \<open>duration: 60\<close>) and the middleware that calls \<open>consume(req.ip)\<close>
  are. Section 4.3 of the spec gives the contract: a record per caller identity with the
  window's start and a count; "a new window starts ... whenever the stored window's start
  is more than windowDuration in the past; the counter then resets to 1 for the admitting
  call"; the call "returns false ... when the window's count has reached the configured
  ceiling; otherwise increments the count and returns true". A record is "created on first
  request from an identity". Times are in seconds.
\<close>

record RateLimitRecord =
  windowStart :: nat
  count :: nat

type_synonym limiter = "string \<rightharpoonup> RateLimitRecord"

text \<open>\<open>points: 100\<close> and \<open>duration: 60\<close>, from the constructor of \<open>ModelRouter\<close>.\<close>

definition points :: nat where
  "points = 100"

definition duration :: nat where
  "duration = 60"

text \<open>
  Modelled from the spec: \<open>consume\<close>, the \<open>admit\<close> of section 4.3, with the
  ceiling and the window of the router's constructor call. \<open>False\<close> is the rejected
  promise.
\<close>

definition consume :: "limiter \<Rightarrow> nat \<Rightarrow> string \<Rightarrow> bool \<times> limiter" where
  "consume st now ident =
     (case st ident of
        None \<Rightarrow> (True, st(ident \<mapsto> \<lparr>windowStart = now, count = 1\<rparr>))
      | Some r \<Rightarrow>
          if windowStart r + duration < now
          then (True, st(ident \<mapsto> \<lparr>windowStart = now, count = 1\<rparr>))
          else if count r \<ge> points then (False, st)
          else (True, st(ident \<mapsto> r\<lparr>count := count r + 1\<rparr>)))"

text \<open>
  The rate limiting middleware of \<open>setupMiddleware\<close>: \<open>None\<close> is \<open>next()\<close>, the
  request goes on to its route; a rejected \<open>consume\<close> is caught and answered with 429.
\<close>

definition rateLimit :: "limiter \<Rightarrow> nat \<Rightarrow> string \<Rightarrow> http_response option \<times> limiter" where
  "rateLimit st now ip =
     (case consume st now ip of
        (True, st') \<Rightarrow> (None, st')
      | (False, st') \<Rightarrow>
          (Some \<lparr>status = 429, error_text = Some ''Too Many Requests'',
                 message_text = Some ''Rate limit exceeded. Please try again later.'',
                 payload = None\<rparr>, st'))"

text \<open>
  A sequence of requests, each with its arrival time and caller identity, through the
  middleware: the answers, in order, and the limiter after them.
\<close>

fun admissions :: "limiter \<Rightarrow> (nat \<times> string) list \<Rightarrow> http_response option list \<times> limiter" where
  "admissions st [] = ([], st)"
| "admissions st ((now, ip) # rs) =
     (case rateLimit st now ip of
        (a, st1) \<Rightarrow> (case admissions st1 rs of (as, st2) \<Rightarrow> (a # as, st2)))"

section \<open>Runs of the router\<close>

text \<open>
  What changes the providers while the router runs: a health-check tick (the interval
  timer of \<open>startHealthChecks\<close>) and a call of \<open>generateContent\<close>. Each is taken as one
  step, a call of \<open>generateContent\<close> with nothing else running while it waits.
\<close>

datatype event =
    HealthTick "string \<Rightarrow> probe" "string \<Rightarrow> nat"
  | Generate nat network string string string

fun step :: "fallback \<Rightarrow> models \<Rightarrow> event \<Rightarrow> models" where
  "step fb ms (HealthTick probes clock) = checkModelHealth probes clock ms"
| "step fb ms (Generate n post prompt model type) =
     fst (snd (generateContent n fb post alone 0 ms prompt model type))"

fun run :: "fallback \<Rightarrow> models \<Rightarrow> event list \<Rightarrow> models" where
  "run fb ms [] = ms"
| "run fb ms (e # es) = run fb (step fb ms e) es"

section \<open>Provider sets used in examples\<close>

text \<open>The router's own providers after a tick in which every probe was rejected.\<close>

definition all_unhealthy :: models where
  "all_unhealthy = checkModelHealth (\<lambda>k. Rejected) (\<lambda>k. 30000) (initializeModels 0)"

text \<open>
  The three providers of the spec's scenario, registered in the order A, B, C. The provider
  objects of the router have no \<open>priority\<close> property and \<open>selectOptimalModel\<close>
  reads none, so the priorities of the scenario have no place in them; the fields the
  scenario leaves open are the same for the three.
\<close>

definition scenario_provider :: "string \<Rightarrow> string list \<Rightarrow> bool \<Rightarrow> model" where
  "scenario_provider nm caps h =
     \<lparr>name = nm, endpoint = ''http://'' @ nm @ '':8000/v1/completions'',
      healthEndpoint = ''http://'' @ nm @ '':8000/health'',
      config_model = None, max_tokens = Some 2048, capabilities = caps,
      loadBalancer = newRoundRobinLoadBalancer [''http://'' @ nm @ '':8000''],
      isHealthy = h, lastHealthCheck = 0\<rparr>"

definition scenario :: models where
  "scenario = [(''A'', scenario_provider ''A'' [''conversation''] True),
               (''B'', scenario_provider ''B'' [''conversation'', ''analysis''] True),
               (''C'', scenario_provider ''C'' [''conversation''] False)]"

text \<open>Probe outcomes for examples: \<open>gemma3\<close> answers 503, or every provider answers 200.\<close>

definition probes_down :: "string \<Rightarrow> probe" where
  "probes_down k = (if k = ''gemma3'' then Response 503 else Response 200)"

definition probes_up :: "string \<Rightarrow> probe" where
  "probes_up k = Response 200"

text \<open>Networks for examples: every call succeeds, or only calls to \<open>chatterbox\<close> fail.\<close>

definition always_ok :: network where
  "always_ok c k = Some ''ok''"


text \<open>The router's own providers after a tick in which only the probe of \<open>hfHub\<close> failed.\<close>

definition probes_hf_down :: "string \<Rightarrow> probe" where
  "probes_hf_down k = (if k = ''hfHub'' then Rejected else Response 200)"

definition hf_down :: models where
  "hf_down = checkModelHealth probes_hf_down (\<lambda>k. 30000) (initializeModels 0)"

text \<open>A conversation request pinned to \<open>hfHub\<close>.\<close>

definition pinned_request :: generate_body where
  "pinned_request = \<lparr>body_prompt = Some ''hello'', body_model = Some ''hfHub'',
                      body_type = Some ''conversation'', options_model = None,
                      options_type = None\<rparr>"

text \<open>Requests without a prompt, and a RunPod endpoint that answers.\<close>

definition no_prompt :: generate_body where
  "no_prompt = \<lparr>body_prompt = Some [], body_model = Some ''gemma3'', body_type = None,
                 options_model = None, options_type = None\<rparr>"

definition runpod_no_prompt :: runpod_body where
  "runpod_no_prompt = \<lparr>rp_prompt = None, rp_endpointId = Some ''endpoint-1''\<rparr>"

definition runsync_ok :: "string \<Rightarrow> string \<Rightarrow> (nat option \<times> string) + string" where
  "runsync_ok e p = Inr ''text''"

text \<open>Ninety-nine requests of one caller, thirty seconds into its window.\<close>

definition burst :: "(nat \<times> string) list" where
  "burst = replicate 99 (30, ''10.0.0.7'')"

text \<open>
  A request against a \<open>findFallbackModel\<close> that answers with the other of \<open>gemma3\<close>
  and \<open>chatterbox\<close>, on a network where every call fails, while a health-check tick in
  which every probe answers 200 runs during each call.
\<close>

definition other_provider :: fallback where
  "other_provider ms r =
     (case r of
        Own k \<Rightarrow> Inr (Some (if k = ''gemma3'' then ''chatterbox'' else ''gemma3''))
      | Inherited nm \<Rightarrow> Inr None)"

definition always_fails :: network where
  "always_fails c k = None"

definition reviving_tick :: interference where
  "reviving_tick c ms = checkModelHealth probes_up (\<lambda>k. 30000) ms"

section \<open>Round-robin endpoint choice\<close>

lemma calls_general:
  assumes "endpoints lb = eps" "currentIndex lb = Some i" "i < length eps"
  shows "calls k lb =
           (map (\<lambda>j. Some (eps ! ((i + j) mod length eps))) [0..<k],
            lb\<lparr>currentIndex := Some ((i + k) mod length eps)\<rparr>)"
  using assms
proof (induction k arbitrary: lb i)
  case 0
  then show ?case by simp
next
  case (Suc k)
  let ?n = "length eps"
  let ?lb1 = "lb\<lparr>currentIndex := Some ((i + 1) mod ?n)\<rparr>"
  have n0: "0 < ?n" using Suc.prems by (cases eps) auto
  have g: "getNextEndpoint lb = (Some (eps ! i), ?lb1)"
    using Suc.prems n0 by (simp add: getNextEndpoint_def)
  have ih: "calls k ?lb1 =
         (map (\<lambda>j. Some (eps ! (((i + 1) mod ?n + j) mod ?n))) [0..<k],
          ?lb1\<lparr>currentIndex := Some (((i + 1) mod ?n + k) mod ?n)\<rparr>)"
    using Suc.IH[of ?lb1 "(i + 1) mod ?n"] Suc.prems n0 by simp
  have m1: "\<And>j. ((i + 1) mod ?n + j) mod ?n = (i + Suc j) mod ?n"
    by (simp add: mod_add_left_eq)
  have lst: "map (\<lambda>j. Some (eps ! ((i + j) mod ?n))) [0..<Suc k]
           = Some (eps ! i) # map (\<lambda>j. Some (eps ! ((i + Suc j) mod ?n))) [0..<k]"
    using Suc.prems by (simp add: upt_conv_Cons map_Suc_upt[symmetric] del: upt_Suc)
  show ?case
    using g ih m1 lst by (simp del: upt_Suc)
qed

text \<open>
  C9. A balancer built from a non-empty list of \<open>n\<close> endpoints returns
  \<open>endpoints[(k-1) mod n]\<close> at its \<open>k\<close>-th call; \<open>n\<close> calls in a row return every
  endpoint once, in order; \<open>currentIndex\<close> stays below \<open>n\<close>; and after \<open>n\<close> calls
  the balancer is as it started.
\<close>

theorem round_robin_cycle:
  assumes "eps \<noteq> []"
  shows "(\<forall>k\<ge>1. fst (calls k (newRoundRobinLoadBalancer eps)) ! (k - 1)
                   = Some (eps ! ((k - 1) mod length eps)))
       \<and> fst (calls (length eps) (newRoundRobinLoadBalancer eps)) = map Some eps
       \<and> (\<forall>k. \<exists>i < length eps.
              currentIndex (snd (calls k (newRoundRobinLoadBalancer eps))) = Some i)
       \<and> snd (calls (length eps) (newRoundRobinLoadBalancer eps)) = newRoundRobinLoadBalancer eps"
proof -
  let ?lb = "newRoundRobinLoadBalancer eps"
  let ?n = "length eps"
  have n0: "0 < ?n" using assms by simp
  have c: "\<And>k. calls k ?lb =
           (map (\<lambda>j. Some (eps ! (j mod ?n))) [0..<k], ?lb\<lparr>currentIndex := Some (k mod ?n)\<rparr>)"
    using calls_general[of ?lb eps 0] n0 by (simp add: newRoundRobinLoadBalancer_def)
  have p1: "\<forall>k\<ge>1. fst (calls k ?lb) ! (k - 1) = Some (eps ! ((k - 1) mod ?n))"
    by (simp add: c)
  have "map (\<lambda>j. Some (eps ! (j mod ?n))) [0..<?n] = map Some eps"
    by (rule nth_equalityI) simp_all
  then have p2: "fst (calls ?n ?lb) = map Some eps"
    by (simp add: c)
  have p3: "\<forall>k. \<exists>i < ?n. currentIndex (snd (calls k ?lb)) = Some i"
    using n0 by (simp add: c)
  have p4: "snd (calls ?n ?lb) = ?lb"
    unfolding c by (simp add: newRoundRobinLoadBalancer_def)
  show ?thesis using p1 p2 p3 p4 by blast
qed


theorem round_robin_cycle_witness:
  "[''a'', ''b'', ''c''] \<noteq> []
   \<and> fst (calls 5 (newRoundRobinLoadBalancer [''a'', ''b'', ''c''])) ! 4 = Some ''b''
   \<and> fst (calls 3 (newRoundRobinLoadBalancer [''a'', ''b'', ''c'']))
       = [Some ''a'', Some ''b'', Some ''c'']
   \<and> snd (calls 3 (newRoundRobinLoadBalancer [''a'', ''b'', ''c'']))
       = newRoundRobinLoadBalancer [''a'', ''b'', ''c'']"
proof -
  have h: "[''a'', ''b'', ''c''] \<noteq> []" by simp
  note t = round_robin_cycle[OF h]
  have a: "fst (calls 5 (newRoundRobinLoadBalancer [''a'', ''b'', ''c''])) ! 4 = Some ''b''"
    using t[THEN conjunct1, rule_format, of 5] by simp
  have b: "fst (calls 3 (newRoundRobinLoadBalancer [''a'', ''b'', ''c'']))
       = [Some ''a'', Some ''b'', Some ''c'']"
    using t[THEN conjunct2, THEN conjunct1] by (simp add: numeral_3_eq_3)
  have c: "snd (calls 3 (newRoundRobinLoadBalancer [''a'', ''b'', ''c'']))
       = newRoundRobinLoadBalancer [''a'', ''b'', ''c'']"
    using t[THEN conjunct2, THEN conjunct2, THEN conjunct2] by (simp add: numeral_3_eq_3)
  show ?thesis using h a b c by blast
qed

section \<open>Selection\<close>

lemma select_loop_unchanged_or_found:
  "select_loop ty p xs (b, s) = (b', s') \<Longrightarrow>
     (b' = b \<and> s' = s \<and> (\<forall>x\<in>set xs. isHealthy (snd x) \<longrightarrow> score ty p x \<le> s))
   \<or> (\<exists>ys e zs. xs = ys @ e # zs \<and> b' = Some (fst e) \<and> isHealthy (snd e)
          \<and> score ty p e = s' \<and> s < s'
          \<and> (\<forall>y\<in>set ys. isHealthy (snd y) \<longrightarrow> score ty p y < s')
          \<and> (\<forall>z\<in>set zs. isHealthy (snd z) \<longrightarrow> score ty p z \<le> s'))"
proof (induction xs arbitrary: b s)
  case Nil
  then show ?case by simp
next
  case (Cons x xs)
  show ?case
  proof (cases "isHealthy (snd x)")
    case False
    with Cons.prems have r: "select_loop ty p xs (b, s) = (b', s')" by simp
    from Cons.IH[OF r] show ?thesis
    proof
      assume "b' = b \<and> s' = s \<and> (\<forall>x\<in>set xs. isHealthy (snd x) \<longrightarrow> score ty p x \<le> s)"
      with False show ?thesis by simp
    next
      assume "\<exists>ys e zs. xs = ys @ e # zs \<and> b' = Some (fst e) \<and> isHealthy (snd e)
          \<and> score ty p e = s' \<and> s < s'
          \<and> (\<forall>y\<in>set ys. isHealthy (snd y) \<longrightarrow> score ty p y < s')
          \<and> (\<forall>z\<in>set zs. isHealthy (snd z) \<longrightarrow> score ty p z \<le> s')"
      then obtain ys e zs where d: "xs = ys @ e # zs" "b' = Some (fst e)" "isHealthy (snd e)"
          "score ty p e = s'" "s < s'"
          "\<forall>y\<in>set ys. isHealthy (snd y) \<longrightarrow> score ty p y < s'"
          "\<forall>z\<in>set zs. isHealthy (snd z) \<longrightarrow> score ty p z \<le> s'" by blast
      have "x # xs = (x # ys) @ e # zs" using d(1) by simp
      moreover have "\<forall>y\<in>set (x # ys). isHealthy (snd y) \<longrightarrow> score ty p y < s'"
        using d(6) False by simp
      ultimately show ?thesis using d(2-5,7) by blast
    qed
  next
    case True
    show ?thesis
    proof (cases "score ty p x > s")
      case better: True
      with True Cons.prems
      have r: "select_loop ty p xs (Some (fst x), score ty p x) = (b', s')" by simp
      from Cons.IH[OF r] show ?thesis
      proof
        assume u: "b' = Some (fst x) \<and> s' = score ty p x
                 \<and> (\<forall>y\<in>set xs. isHealthy (snd y) \<longrightarrow> score ty p y \<le> score ty p x)"
        have "x # xs = [] @ x # xs" by simp
        moreover have "\<forall>y\<in>set []. isHealthy (snd y) \<longrightarrow> score ty p y < s'" by simp
        ultimately show ?thesis using u True better by blast
      next
        assume "\<exists>ys e zs. xs = ys @ e # zs \<and> b' = Some (fst e) \<and> isHealthy (snd e)
          \<and> score ty p e = s' \<and> score ty p x < s'
          \<and> (\<forall>y\<in>set ys. isHealthy (snd y) \<longrightarrow> score ty p y < s')
          \<and> (\<forall>z\<in>set zs. isHealthy (snd z) \<longrightarrow> score ty p z \<le> s')"
        then obtain ys e zs where d: "xs = ys @ e # zs" "b' = Some (fst e)" "isHealthy (snd e)"
          "score ty p e = s'" "score ty p x < s'"
          "\<forall>y\<in>set ys. isHealthy (snd y) \<longrightarrow> score ty p y < s'"
          "\<forall>z\<in>set zs. isHealthy (snd z) \<longrightarrow> score ty p z \<le> s'" by blast
        have "x # xs = (x # ys) @ e # zs" using d(1) by simp
        moreover have "\<forall>y\<in>set (x # ys). isHealthy (snd y) \<longrightarrow> score ty p y < s'"
          using d(5,6) by simp
        moreover have "s < s'" using better d(5) by simp
        ultimately show ?thesis using d(2-4,7) by blast
      qed
    next
      case worse: False
      with True Cons.prems have r: "select_loop ty p xs (b, s) = (b', s')" by simp
      from Cons.IH[OF r] show ?thesis
      proof
        assume "b' = b \<and> s' = s \<and> (\<forall>x\<in>set xs. isHealthy (snd x) \<longrightarrow> score ty p x \<le> s)"
        with worse show ?thesis by simp
      next
        assume "\<exists>ys e zs. xs = ys @ e # zs \<and> b' = Some (fst e) \<and> isHealthy (snd e)
          \<and> score ty p e = s' \<and> s < s'
          \<and> (\<forall>y\<in>set ys. isHealthy (snd y) \<longrightarrow> score ty p y < s')
          \<and> (\<forall>z\<in>set zs. isHealthy (snd z) \<longrightarrow> score ty p z \<le> s')"
        then obtain ys e zs where d: "xs = ys @ e # zs" "b' = Some (fst e)" "isHealthy (snd e)"
          "score ty p e = s'" "s < s'"
          "\<forall>y\<in>set ys. isHealthy (snd y) \<longrightarrow> score ty p y < s'"
          "\<forall>z\<in>set zs. isHealthy (snd z) \<longrightarrow> score ty p z \<le> s'" by blast
        have "x # xs = (x # ys) @ e # zs" using d(1) by simp
        moreover have "\<forall>y\<in>set (x # ys). isHealthy (snd y) \<longrightarrow> score ty p y < s'"
          using d(5,6) worse by auto
        ultimately show ?thesis using d(2-5,7) by blast
      qed
    qed
  qed
qed

lemma score_pos: "0 < score ty p e"
  by (simp add: score_def split: prod.splits)

lemma select_loop_none:
  "fst (select_loop ty p ms (None, 0)) = None \<longleftrightarrow> (\<forall>e\<in>set ms. \<not> isHealthy (snd e))"
proof -
  obtain b' s' where r: "select_loop ty p ms (None, 0) = (b', s')"
    by (cases "select_loop ty p ms (None, 0)")
  from select_loop_unchanged_or_found[OF r] show ?thesis
  proof
    assume u: "b' = None \<and> s' = 0 \<and> (\<forall>x\<in>set ms. isHealthy (snd x) \<longrightarrow> score ty p x \<le> 0)"
    have "\<forall>e\<in>set ms. \<not> isHealthy (snd e)"
    proof
      fix e assume "e \<in> set ms"
      with u have "isHealthy (snd e) \<longrightarrow> score ty p e \<le> 0" by blast
      with score_pos[of ty p e] show "\<not> isHealthy (snd e)" by auto
    qed
    with u r show ?thesis by simp
  next
    assume "\<exists>ys e zs. ms = ys @ e # zs \<and> b' = Some (fst e) \<and> isHealthy (snd e)
          \<and> score ty p e = s' \<and> 0 < s'
          \<and> (\<forall>y\<in>set ys. isHealthy (snd y) \<longrightarrow> score ty p y < s')
          \<and> (\<forall>z\<in>set zs. isHealthy (snd z) \<longrightarrow> score ty p z \<le> s')"
    then obtain ys e zs where "ms = ys @ e # zs" "b' = Some (fst e)" "isHealthy (snd e)"
      by blast
    with r show ?thesis by auto
  qed
qed

lemma select_loop_best:
  assumes "\<exists>e\<in>set ms. isHealthy (snd e)"
  shows "\<exists>ys e zs. ms = ys @ e # zs \<and> fst (select_loop ty p ms (None, 0)) = Some (fst e)
           \<and> isHealthy (snd e)
           \<and> (\<forall>y\<in>set ys. isHealthy (snd y) \<longrightarrow> score ty p y < score ty p e)
           \<and> (\<forall>z\<in>set zs. isHealthy (snd z) \<longrightarrow> score ty p z \<le> score ty p e)"
proof -
  obtain b' s' where r: "select_loop ty p ms (None, 0) = (b', s')"
    by (cases "select_loop ty p ms (None, 0)")
  have "b' \<noteq> None" using select_loop_none[of ty p ms] assms r by auto
  with select_loop_unchanged_or_found[OF r] r show ?thesis by auto
qed

lemma scenario_scores:
  "score ''conversation'' p (''A'', scenario_provider ''A'' [''conversation''] True) = 25"
  "score ''conversation'' p (''B'', scenario_provider ''B'' [''conversation'', ''analysis''] True) = 25"
  by (simp_all add: score_def scenario_provider_def)

lemma scenario_healthy:
  "isHealthy (scenario_provider nm caps h) = h"
  by (simp add: scenario_provider_def)

lemma select_scenario: "selectOptimalModel scenario ''conversation'' p = Some ''A''"
  by (simp add: selectOptimalModel_def scenario_def scenario_scores scenario_healthy)

text \<open>
  C1, as the claim states it, fails: when no provider is healthy the selector returns the
  \<open>gemma3\<close> entry, its default, whose flag is false.
\<close>

theorem select_unhealthy_default:
  "selectOptimalModel all_unhealthy ''general'' ''hello'' = Some ''gemma3''
   \<and> \<not> healthy all_unhealthy ''gemma3''"
  by (simp add: all_unhealthy_def selectOptimalModel_def checkModelHealth_def check_one_def
      initializeModels_def healthy_def lookup_def)

text \<open>
  C1, amended. With at least one healthy provider the selector returns a healthy one; with
  none it returns the \<open>gemma3\<close> entry whatever its health, and nothing when
  \<open>gemma3\<close> is not registered.
\<close>

theorem select_healthy_or_default:
  assumes "distinct (map fst ms)"
  shows "((\<exists>e\<in>set ms. isHealthy (snd e)) \<longrightarrow>
            (\<exists>k. selectOptimalModel ms ty p = Some k \<and> healthy ms k))
       \<and> ((\<forall>e\<in>set ms. \<not> isHealthy (snd e)) \<longrightarrow>
            selectOptimalModel ms ty p
              = (if ''gemma3'' \<in> set (map fst ms) then Some ''gemma3'' else None))"
proof (intro conjI impI)
  assume "\<exists>e\<in>set ms. isHealthy (snd e)"
  from select_loop_best[OF this, of ty p]
  obtain ys e zs where d: "ms = ys @ e # zs"
      "fst (select_loop ty p ms (None, 0)) = Some (fst e)" "isHealthy (snd e)" by blast
  have "(fst e, snd e) \<in> set ms" using d(1) by simp
  then have "map_of ms (fst e) = Some (snd e)" using assms by (rule map_of_is_SomeI[rotated])
  then have "healthy ms (fst e)" using d(3) by (simp add: healthy_def lookup_def)
  moreover have "selectOptimalModel ms ty p = Some (fst e)"
    using d(2) by (simp add: selectOptimalModel_def)
  ultimately show "\<exists>k. selectOptimalModel ms ty p = Some k \<and> healthy ms k" by blast
next
  assume "\<forall>e\<in>set ms. \<not> isHealthy (snd e)"
  then have "fst (select_loop ty p ms (None, 0)) = None" by (simp add: select_loop_none)
  moreover have "(map_of ms ''gemma3'' = None) = (''gemma3'' \<notin> fst ` set ms)"
    by (rule map_of_eq_None_iff)
  ultimately show "selectOptimalModel ms ty p
              = (if ''gemma3'' \<in> set (map fst ms) then Some ''gemma3'' else None)"
    by (auto simp: selectOptimalModel_def lookup_def split: option.splits)
qed


theorem select_healthy_or_default_witness:
  "distinct (map fst (initializeModels 0))
   \<and> (\<exists>e\<in>set (initializeModels 0). isHealthy (snd e))
   \<and> (\<exists>k. selectOptimalModel (initializeModels 0) ''analysis'' ''hello'' = Some k
          \<and> healthy (initializeModels 0) k)
   \<and> distinct (map fst all_unhealthy)
   \<and> \<not> (\<exists>e\<in>set all_unhealthy. isHealthy (snd e))
   \<and> selectOptimalModel all_unhealthy ''analysis'' ''hello'' = Some ''gemma3''"
proof -
  have d1: "distinct (map fst (initializeModels 0))" by (simp add: initializeModels_def)
  have h1: "\<exists>e\<in>set (initializeModels 0). isHealthy (snd e)" by (simp add: initializeModels_def)
  have d2: "distinct (map fst all_unhealthy)"
    by (simp add: all_unhealthy_def checkModelHealth_def initializeModels_def)
  have h2: "\<forall>e\<in>set all_unhealthy. \<not> isHealthy (snd e)"
    by (simp add: all_unhealthy_def checkModelHealth_def check_one_def initializeModels_def)
  have g: "''gemma3'' \<in> set (map fst all_unhealthy)"
    by (simp add: all_unhealthy_def checkModelHealth_def initializeModels_def)
  note t1 = select_healthy_or_default[OF d1, of "''analysis''" "''hello''", THEN conjunct1, THEN mp, OF h1]
  note t2 = select_healthy_or_default[OF d2, of "''analysis''" "''hello''", THEN conjunct2, THEN mp, OF h2]
  show ?thesis using d1 h1 t1 d2 h2 t2 g by simp
qed

text \<open>
  C2, as the claim states it, fails: in the scenario A and B score the same for a
  conversation request, and the selector returns A, the one registered first.
\<close>

theorem select_scenario_returns_A:
  "selectOptimalModel scenario ''conversation'' ''hello'' = Some ''A''
   \<and> selectOptimalModel scenario ''conversation'' ''hello'' \<noteq> Some ''B''"
  by (simp add: select_scenario)

text \<open>
  C2, amended. The selector returns a healthy provider of the highest score; among equal
  scores the one registered first wins: every healthy provider before it scores strictly
  lower, every healthy provider after it no higher. No priority takes part. In the scenario
  the selector returns A.
\<close>

theorem select_highest_score_first_registered:
  "((\<exists>e\<in>set ms. isHealthy (snd e)) \<longrightarrow>
      (\<exists>ys e zs. ms = ys @ e # zs \<and> selectOptimalModel ms ty p = Some (fst e)
         \<and> isHealthy (snd e)
         \<and> (\<forall>y\<in>set ys. isHealthy (snd y) \<longrightarrow> score ty p y < score ty p e)
         \<and> (\<forall>z\<in>set zs. isHealthy (snd z) \<longrightarrow> score ty p z \<le> score ty p e)))
   \<and> selectOptimalModel scenario ''conversation'' p = Some ''A''"
proof (intro conjI impI)
  assume "\<exists>e\<in>set ms. isHealthy (snd e)"
  from select_loop_best[OF this, of ty p]
  obtain ys e zs where d: "ms = ys @ e # zs"
      "fst (select_loop ty p ms (None, 0)) = Some (fst e)" "isHealthy (snd e)"
      "\<forall>y\<in>set ys. isHealthy (snd y) \<longrightarrow> score ty p y < score ty p e"
      "\<forall>z\<in>set zs. isHealthy (snd z) \<longrightarrow> score ty p z \<le> score ty p e" by blast
  have "selectOptimalModel ms ty p = Some (fst e)"
    using d(2) by (simp add: selectOptimalModel_def)
  with d show "\<exists>ys e zs. ms = ys @ e # zs \<and> selectOptimalModel ms ty p = Some (fst e)
         \<and> isHealthy (snd e)
         \<and> (\<forall>y\<in>set ys. isHealthy (snd y) \<longrightarrow> score ty p y < score ty p e)
         \<and> (\<forall>z\<in>set zs. isHealthy (snd z) \<longrightarrow> score ty p z \<le> score ty p e)" by blast
next
  show "selectOptimalModel scenario ''conversation'' p = Some ''A''" by (rule select_scenario)
qed

theorem select_highest_score_first_registered_witness:
  "(\<exists>e\<in>set scenario. isHealthy (snd e))
   \<and> (\<exists>ys e zs. scenario = ys @ e # zs
         \<and> selectOptimalModel scenario ''conversation'' ''hello'' = Some (fst e)
         \<and> isHealthy (snd e)
         \<and> \<not> (\<exists>y\<in>set ys. isHealthy (snd y)
                  \<and> score ''conversation'' ''hello'' e \<le> score ''conversation'' ''hello'' y)
         \<and> \<not> (\<exists>z\<in>set zs. isHealthy (snd z)
                  \<and> score ''conversation'' ''hello'' e < score ''conversation'' ''hello'' z))"
proof -
  have h: "\<exists>e\<in>set scenario. isHealthy (snd e)"
    by (simp add: scenario_def scenario_healthy)
  from select_highest_score_first_registered[of scenario "''conversation''" "''hello''",
        THEN conjunct1, rule_format, OF h]
  obtain ys e zs where d: "scenario = ys @ e # zs"
      "selectOptimalModel scenario ''conversation'' ''hello'' = Some (fst e)" "isHealthy (snd e)"
      "\<forall>y\<in>set ys. isHealthy (snd y) \<longrightarrow> score ''conversation'' ''hello'' y < score ''conversation'' ''hello'' e"
      "\<forall>z\<in>set zs. isHealthy (snd z) \<longrightarrow> score ''conversation'' ''hello'' z \<le> score ''conversation'' ''hello'' e"
    by blast
  have a: "\<not> (\<exists>y\<in>set ys. isHealthy (snd y)
                  \<and> score ''conversation'' ''hello'' e \<le> score ''conversation'' ''hello'' y)"
    using d(4) by (auto simp: not_le)
  have b: "\<not> (\<exists>z\<in>set zs. isHealthy (snd z)
                  \<and> score ''conversation'' ''hello'' e < score ''conversation'' ''hello'' z)"
    using d(5) by (auto simp: not_less)
  show ?thesis using h d(1,2,3) a b by blast
qed

section \<open>Provider state under updates\<close>

lemma keys_update_model: "map fst (update_model k f ms) = map fst ms"
  by (induction ms) (auto simp: update_model_def)

lemma lookup_update_model:
  "lookup (update_model k f ms) k' = (if k' = k then map_option f (lookup ms k) else lookup ms k')"
  by (induction ms) (auto simp: update_model_def lookup_def)

lemma keys_checkModelHealth: "map fst (checkModelHealth probes clock ms) = map fst ms"
  by (induction ms) (auto simp: checkModelHealth_def)

lemma lookup_checkModelHealth:
  "lookup (checkModelHealth probes clock ms) k
     = map_option (check_one (probes k) (clock k)) (lookup ms k)"
  by (induction ms) (auto simp: checkModelHealth_def lookup_def)

lemma isHealthy_check_one: "isHealthy (check_one p now m) = (p = Response 200)"
  by (cases p) (simp_all add: check_one_def)

lemma healthy_checkModelHealth:
  "healthy (checkModelHealth probes clock ms) k
     = (k \<in> set (map fst ms) \<and> probes k = Response 200)"
proof (cases "lookup ms k")
  case None
  then have "k \<notin> set (map fst ms)" by (simp add: lookup_def map_of_eq_None_iff)
  with None show ?thesis by (simp add: healthy_def lookup_checkModelHealth)
next
  case (Some m)
  then have "k \<in> set (map fst ms)"
    using map_of_eq_None_iff[of ms k] by (auto simp: lookup_def)
  with Some show ?thesis by (simp add: healthy_def lookup_checkModelHealth isHealthy_check_one)
qed

lemma healthy_take_endpoint: "healthy (take_endpoint k ms) k' = healthy ms k'"
  by (cases "lookup ms k") (auto simp: healthy_def take_endpoint_def lookup_update_model)

lemma healthy_mark_unhealthy: "healthy (mark_unhealthy k ms) k' = (k' \<noteq> k \<and> healthy ms k')"
  by (cases "lookup ms k") (auto simp: healthy_def mark_unhealthy_def lookup_update_model)

lemma keys_take_endpoint: "map fst (take_endpoint k ms) = map fst ms"
  by (simp add: take_endpoint_def keys_update_model)

lemma keys_mark_unhealthy: "map fst (mark_unhealthy k ms) = map fst ms"
  by (simp add: mark_unhealthy_def keys_update_model)

lemma healthy_lookup: "lookup ms k = Some m \<Longrightarrow> healthy ms k = isHealthy m"
  by (simp add: healthy_def)

lemma lookup_in_set: "lookup ms k = Some m \<Longrightarrow> (k, m) \<in> set ms"
  by (simp add: lookup_def map_of_SomeD)

lemma registered_lookup: "k \<in> set (map fst ms) \<Longrightarrow> \<exists>m. lookup ms k = Some m"
  using map_of_eq_None_iff[of ms k] by (auto simp: lookup_def)

lemma unregistered_lookup: "k \<notin> set (map fst ms) \<Longrightarrow> lookup ms k = None"
  using map_of_eq_None_iff[of ms k] by (auto simp: lookup_def)

lemma healthy_registered: "healthy ms k \<Longrightarrow> k \<in> set (map fst ms)"
  using unregistered_lookup[of k ms] by (cases "k \<in> set (map fst ms)") (auto simp: healthy_def)

lemma property_healthy: "healthy ms k \<Longrightarrow> property ms k = Some (Own k)"
  using healthy_registered[of ms k] by (simp add: property_def)

lemma property_Own: "property ms nm = Some (Own k) \<Longrightarrow> k = nm \<and> nm \<in> set (map fst ms)"
  by (auto simp: property_def split: if_splits)

lemma generateContent_Suc_cases:
  assumes "generateContent (Suc n) fb post during c ms prompt model type = r"
  obtains
    (not_found) "resolve ms model type prompt = None"
      "r = (Some (Inl (ModelNotFound model)), ms, [])"
  | (unhealthy_throws) sel e where "resolve ms model type prompt = Some sel"
      "\<not> is_healthy ms sel" "fb ms sel = Inl e" "r = (Some (Inl e), ms, [])"
  | (unhealthy_none) sel where "resolve ms model type prompt = Some sel"
      "\<not> is_healthy ms sel" "fb ms sel = Inr None" "r = (Some (Inl NoHealthyModels), ms, [])"
  | (unhealthy_fallback) sel f where "resolve ms model type prompt = Some sel"
      "\<not> is_healthy ms sel" "fb ms sel = Inr (Some f)"
      "r = generateContent n fb post during c ms prompt (key_of ms f) type"
  | (served) k body where "resolve ms model type prompt = Some (Own k)" "healthy ms k"
      "post c k = Some body"
      "r = (Some (Inr \<lparr>content = body, served_by = display_name ms k\<rparr>),
            during c (take_endpoint k ms), [(k, True)])"
  | (failed_throws) k e where "resolve ms model type prompt = Some (Own k)" "healthy ms k"
      "post c k = None"
      "fb (mark_unhealthy k (during c (take_endpoint k ms))) (Own k) = Inl e"
      "r = (Some (Inl e), mark_unhealthy k (during c (take_endpoint k ms)), [(k, False)])"
  | (failed_none) k where "resolve ms model type prompt = Some (Own k)" "healthy ms k"
      "post c k = None"
      "fb (mark_unhealthy k (during c (take_endpoint k ms))) (Own k) = Inr None"
      "r = (Some (Inl AllModelsUnavailable), mark_unhealthy k (during c (take_endpoint k ms)),
            [(k, False)])"
  | (failed_fallback) k f where "resolve ms model type prompt = Some (Own k)" "healthy ms k"
      "post c k = None"
      "fb (mark_unhealthy k (during c (take_endpoint k ms))) (Own k) = Inr (Some f)"
      "r = (case generateContent n fb post during (Suc c)
                   (mark_unhealthy k (during c (take_endpoint k ms))) prompt
                   (key_of (mark_unhealthy k (during c (take_endpoint k ms))) f) type of
              (r', ms3, tr) \<Rightarrow> (r', ms3, (k, False) # tr))"
proof (cases "resolve ms model type prompt")
  case None
  with assms not_found show ?thesis by simp
next
  case (Some sel)
  show ?thesis
  proof (cases "is_healthy ms sel")
    case False
    have r: "r = (case fb ms sel of
                    Inl e \<Rightarrow> (Some (Inl e), ms, [])
                  | Inr None \<Rightarrow> (Some (Inl NoHealthyModels), ms, [])
                  | Inr (Some f) \<Rightarrow>
                      generateContent n fb post during c ms prompt (key_of ms f) type)"
      using assms Some False by (cases sel) auto
    show ?thesis
    proof (cases "fb ms sel")
      case (Inl e)
      with r Some False unhealthy_throws show ?thesis by simp
    next
      case (Inr v)
      show ?thesis
      proof (cases v)
        case None
        with r Inr Some False unhealthy_none show ?thesis by simp
      next
        case (Some f)
        with r Inr \<open>resolve ms model type prompt = Some sel\<close> False unhealthy_fallback
        show ?thesis by simp
      qed
    qed
  next
    case True
    then obtain k where sel: "sel = Own k" and h: "healthy ms k" by (cases sel) auto
    let ?ms2 = "mark_unhealthy k (during c (take_endpoint k ms))"
    show ?thesis
    proof (cases "post c k")
      case (Some body)
      with assms \<open>resolve ms model type prompt = Some sel\<close> sel h served show ?thesis by simp
    next
      case None
      have r: "r = (case fb ?ms2 (Own k) of
                      Inl e \<Rightarrow> (Some (Inl e), ?ms2, [(k, False)])
                    | Inr None \<Rightarrow> (Some (Inl AllModelsUnavailable), ?ms2, [(k, False)])
                    | Inr (Some f) \<Rightarrow>
                        (case generateContent n fb post during (Suc c) ?ms2 prompt
                                (key_of ?ms2 f) type of
                           (r', ms3, tr) \<Rightarrow> (r', ms3, (k, False) # tr)))"
        using assms \<open>resolve ms model type prompt = Some sel\<close> sel h None by (simp add: Let_def)
      show ?thesis
      proof (cases "fb ?ms2 (Own k)")
        case (Inl e)
        with r \<open>resolve ms model type prompt = Some sel\<close> sel h None failed_throws
        show ?thesis by simp
      next
        case (Inr v)
        show ?thesis
        proof (cases v)
          case vn: None
          with r Inr \<open>resolve ms model type prompt = Some sel\<close> sel h None failed_none
          show ?thesis by simp
        next
          case (Some f)
          with r Inr \<open>resolve ms model type prompt = Some sel\<close> sel h None failed_fallback
          show ?thesis by simp
        qed
      qed
    qed
  qed
qed


lemma generateContent_not_found:
  "resolve ms model type prompt = None \<Longrightarrow>
     generateContent (Suc n) fb post during c ms prompt model type
       = (Some (Inl (ModelNotFound model)), ms, [])"
  by simp

lemma generateContent_unhealthy:
  assumes "resolve ms model type prompt = Some sel" and "\<not> is_healthy ms sel"
  shows "generateContent (Suc n) fb post during c ms prompt model type
           = (case fb ms sel of
                Inl e \<Rightarrow> (Some (Inl e), ms, [])
              | Inr None \<Rightarrow> (Some (Inl NoHealthyModels), ms, [])
              | Inr (Some f) \<Rightarrow> generateContent n fb post during c ms prompt (key_of ms f) type)"
  using assms by (cases sel) auto

lemma generateContent_served:
  assumes "resolve ms model type prompt = Some (Own k)" and "healthy ms k"
    and "post c k = Some body"
  shows "generateContent (Suc n) fb post during c ms prompt model type
           = (Some (Inr \<lparr>content = body, served_by = display_name ms k\<rparr>),
              during c (take_endpoint k ms), [(k, True)])"
  using assms by simp



lemma generateContent_invariants:
  assumes nr: "\<forall>c s k. healthy (during c s) k \<longrightarrow> healthy s k"
  shows "generateContent n fb post during c ms prompt model type = (res, ms', tr) \<Longrightarrow>
     (\<forall>k. healthy ms' k \<longrightarrow> healthy ms k)
   \<and> (\<forall>k ok. (k, ok) \<in> set tr \<longrightarrow> healthy ms k)
   \<and> (\<forall>k. (k, False) \<in> set tr \<longrightarrow> \<not> healthy ms' k)
   \<and> distinct (map fst tr)"
proof (induction n arbitrary: c ms model res ms' tr)
  case 0
  then show ?case by auto
next
  case (Suc n)
  have d: "\<And>c k k'. healthy (during c (take_endpoint k ms)) k' \<Longrightarrow> healthy ms k'"
    using nr healthy_take_endpoint by blast
  from Suc.prems show ?case
  proof (cases rule: generateContent_Suc_cases)
    case not_found
    then show ?thesis by auto
  next
    case (unhealthy_throws sel e)
    then show ?thesis by auto
  next
    case (unhealthy_none sel)
    then show ?thesis by auto
  next
    case (unhealthy_fallback sel f)
    from Suc.IH[OF unhealthy_fallback(4)[symmetric]] show ?thesis .
  next
    case (served k body)
    then show ?thesis using d by auto
  next
    case (failed_throws k e)
    then show ?thesis using d by (auto simp: healthy_mark_unhealthy)
  next
    case (failed_none k)
    then show ?thesis using d by (auto simp: healthy_mark_unhealthy)
  next
    case (failed_fallback k f)
    let ?ms2 = "mark_unhealthy k (during c (take_endpoint k ms))"
    obtain r' ms3 tr' where
      g: "generateContent n fb post during (Suc c) ?ms2 prompt (key_of ?ms2 f) type = (r', ms3, tr')"
      by (cases "generateContent n fb post during (Suc c) ?ms2 prompt (key_of ?ms2 f) type")
    with failed_fallback(5) have e: "res = r'" "ms' = ms3" "tr = (k, False) # tr'" by auto
    note ih = Suc.IH[OF g]
    have h2: "\<And>k'. healthy ?ms2 k' \<Longrightarrow> k' \<noteq> k \<and> healthy ms k'"
      using d by (auto simp: healthy_mark_unhealthy)
    have hk: "healthy ms k" by (rule failed_fallback(2))
    have b: "\<forall>k'. healthy ms' k' \<longrightarrow> healthy ms k'" using ih h2 e by blast
    have c: "\<forall>k' ok. (k', ok) \<in> set tr \<longrightarrow> healthy ms k'" using ih h2 e hk by auto
    have dd: "\<forall>k'. (k', False) \<in> set tr \<longrightarrow> \<not> healthy ms' k'" using ih h2 e by auto
    have "k \<notin> fst ` set tr'" using ih h2 by force
    then have f: "distinct (map fst tr)" using ih e by simp
    show ?thesis using b c dd f by blast
  qed
qed

lemma alone_keeps: "\<forall>c s k. healthy (alone c s) k \<longrightarrow> healthy s k"
  by (simp add: alone_def)

lemma as_it_stands_unhealthy:
  assumes "resolve ms model type prompt = Some sel" and "\<not> is_healthy ms sel"
  shows "generateContent (Suc n) findFallbackModel post during c ms prompt model type
           = (Some (Inl (NotAFunction ''this.findFallbackModel'')), ms, [])"
  using generateContent_unhealthy[OF assms, of n findFallbackModel post during c]
  by (simp add: findFallbackModel_def del: generateContent.simps)


lemma as_it_stands_returns:
  "fst (generateContent (Suc n) findFallbackModel post during c ms prompt model type) \<noteq> None"
proof -
  obtain r where r: "generateContent (Suc n) findFallbackModel post during c ms prompt model type = r"
    by simp
  from r show ?thesis
  proof (cases rule: generateContent_Suc_cases)
    case (unhealthy_none sel)
    then show ?thesis by (simp add: findFallbackModel_def)
  next
    case (unhealthy_fallback sel f)
    then show ?thesis by (simp add: findFallbackModel_def)
  next
    case (failed_none k)
    then show ?thesis by (simp add: findFallbackModel_def)
  next
    case (failed_fallback k f)
    then show ?thesis by (simp add: findFallbackModel_def)
  qed (use r in \<open>simp_all del: generateContent.simps\<close>)
qed

lemma generateContent_all_unhealthy:
  assumes "\<forall>e\<in>set ms. \<not> isHealthy (snd e)"
  shows "snd (generateContent n fb post during c ms prompt model type) = (ms, [])
       \<and> (\<forall>g. fst (generateContent n fb post during c ms prompt model type) \<noteq> Some (Inr g))"
proof (induction n arbitrary: model)
  case 0
  then show ?case by simp
next
  case (Suc n)
  obtain r where r: "generateContent (Suc n) fb post during c ms prompt model type = r" by simp
  have u: "\<And>k. \<not> healthy ms k"
    using assms lookup_in_set by (fastforce simp: healthy_def split: option.splits)
  from r show ?case
  proof (cases rule: generateContent_Suc_cases)
    case not_found
    with r show ?thesis by simp
  next
    case (unhealthy_throws sel e)
    with r show ?thesis by simp
  next
    case (unhealthy_none sel)
    with r show ?thesis by simp
  next
    case (unhealthy_fallback sel f)
    with r Suc.IH[of "key_of ms f"] show ?thesis by simp
  next
    case (served k body)
    with u show ?thesis by blast
  next
    case (failed_throws k e)
    with u show ?thesis by blast
  next
    case (failed_none k)
    with u show ?thesis by blast
  next
    case (failed_fallback k f)
    with u show ?thesis by blast
  qed
qed


lemma select_all_unhealthy:
  assumes "\<forall>e\<in>set ms. \<not> isHealthy (snd e)"
  shows "selectOptimalModel ms type prompt
           = (if ''gemma3'' \<in> set (map fst ms) then Some ''gemma3'' else None)"
proof -
  have n: "fst (select_loop type prompt ms (None, 0)) = None"
    using assms by (simp add: select_loop_none)
  show ?thesis
  proof (cases "''gemma3'' \<in> set (map fst ms)")
    case True
    then obtain m where "lookup ms ''gemma3'' = Some m" using registered_lookup by blast
    with True n show ?thesis by (simp add: selectOptimalModel_def)
  next
    case False
    then have "lookup ms ''gemma3'' = None" by (rule unregistered_lookup)
    with False n show ?thesis by (simp add: selectOptimalModel_def)
  qed
qed

lemma all_unhealthy_never_healthy:
  assumes "\<forall>e\<in>set ms. \<not> isHealthy (snd e)"
  shows "\<not> is_healthy ms sel"
proof (cases sel)
  case (Own k)
  have "\<not> healthy ms k"
    using assms lookup_in_set by (fastforce simp: healthy_def split: option.splits)
  with Own show ?thesis by simp
next
  case (Inherited nm)
  then show ?thesis by simp
qed

section \<open>Health checks\<close>

lemma healthy_step:
  assumes h: "healthy (step fb ms e) k"
  shows "healthy ms k \<or> (\<exists>probes clock. e = HealthTick probes clock \<and> probes k = Response 200)"
proof (cases e)
  case (HealthTick probes clock)
  with h show ?thesis by (simp add: healthy_checkModelHealth)
next
  case (Generate n post prompt model type)
  obtain res ms' tr where
    g: "generateContent n fb post alone 0 ms prompt model type = (res, ms', tr)"
    by (cases "generateContent n fb post alone 0 ms prompt model type")
  with Generate h have "healthy ms' k" by simp
  with generateContent_invariants[OF alone_keeps g] show ?thesis by blast
qed

lemma healthy_run:
  "\<not> healthy ms k \<Longrightarrow> healthy (run fb ms evs) k \<Longrightarrow>
     \<exists>i<length evs. \<exists>probes clock. evs ! i = HealthTick probes clock \<and> probes k = Response 200"
proof (induction evs arbitrary: ms)
  case Nil
  then show ?case by simp
next
  case (Cons e es)
  show ?case
  proof (cases "healthy (step fb ms e) k")
    case True
    with healthy_step[OF True] Cons.prems(1)
    have "\<exists>probes clock. (e # es) ! 0 = HealthTick probes clock \<and> probes k = Response 200"
      by simp
    then show ?thesis by blast
  next
    case False
    from Cons.prems(2) have "healthy (run fb (step fb ms e) es) k" by simp
    from Cons.IH[OF False this] obtain i probes clock where
      "i < length es" "es ! i = HealthTick probes clock" "probes k = Response 200" by blast
    then have "Suc i < length (e # es) \<and> (e # es) ! Suc i = HealthTick probes clock
               \<and> probes k = Response 200" by simp
    then show ?thesis by blast
  qed
qed

lemma gemma3_registered: "''gemma3'' \<in> set (map fst (initializeModels now))"
  by (simp add: initializeModels_def)

text \<open>
  C6. A provider whose probe in a tick is anything but a response with status 200 (a
  rejected request: network error, timeout, refused status; or another status) is
  unhealthy right after that tick. And a provider that is unhealthy and later, after any
  sequence of ticks and generation calls, healthy, has had a tick in between whose probe
  of it returned 200.
\<close>

theorem health_flag_follows_probe:
  "(probes k \<noteq> Response 200 \<longrightarrow> \<not> healthy (checkModelHealth probes clock ms) k)
   \<and> (\<not> healthy ms k \<and> healthy (run fb ms evs) k \<longrightarrow>
        (\<exists>i<length evs. \<exists>probes' clock'.
            evs ! i = HealthTick probes' clock' \<and> probes' k = Response 200))"
  using healthy_run[of ms k fb evs] by (simp add: healthy_checkModelHealth)

theorem health_flag_follows_probe_witness:
  "probes_down ''gemma3'' \<noteq> Response 200
   \<and> \<not> healthy (checkModelHealth probes_down (\<lambda>k. 30000) (initializeModels 0)) ''gemma3''
   \<and> healthy (run findFallbackModel (checkModelHealth probes_down (\<lambda>k. 30000) (initializeModels 0))
                 [HealthTick probes_down (\<lambda>k. 60000), HealthTick probes_up (\<lambda>k. 90000)]) ''gemma3''
   \<and> (\<exists>i<length [HealthTick probes_down (\<lambda>k. 60000), HealthTick probes_up (\<lambda>k. 90000)].
        \<exists>probes' clock'.
          [HealthTick probes_down (\<lambda>k. 60000), HealthTick probes_up (\<lambda>k. 90000)] ! i
             = HealthTick probes' clock' \<and> probes' ''gemma3'' = Response 200)"
proof -
  let ?ms = "checkModelHealth probes_down (\<lambda>k. 30000) (initializeModels 0)"
  let ?evs = "[HealthTick probes_down (\<lambda>k. 60000), HealthTick probes_up (\<lambda>k. 90000)]"
  have p: "probes_down ''gemma3'' \<noteq> Response 200" by (simp add: probes_down_def)
  note a = health_flag_follows_probe[of probes_down "''gemma3''" "\<lambda>k. 30000" "initializeModels 0"
              findFallbackModel ?evs, THEN conjunct1, THEN mp, OF p]
  have b: "healthy (run findFallbackModel ?ms ?evs) ''gemma3''"
    using gemma3_registered[of 0]
    by (simp add: healthy_checkModelHealth keys_checkModelHealth probes_up_def)
  note c = health_flag_follows_probe[of probes_down "''gemma3''" "\<lambda>k. 30000" ?ms
              findFallbackModel ?evs, THEN conjunct2, THEN mp, OF conjI[OF a b]]
  show ?thesis using p a b c by blast
qed

text \<open>
  C8, as the claim states it, fails: the provider state has no consecutive-failure counter.
  Two failed ticks in a row leave exactly the state that the second alone leaves, so
  nothing in it counts the failures.
\<close>

theorem second_failure_leaves_no_count:
  "checkModelHealth (\<lambda>k. Rejected) (\<lambda>k. 60000)
      (checkModelHealth (\<lambda>k. Rejected) (\<lambda>k. 30000) (initializeModels 0))
   = checkModelHealth (\<lambda>k. Rejected) (\<lambda>k. 60000) (initializeModels 0)"
  by (simp add: checkModelHealth_def check_one_def initializeModels_def)

text \<open>
  C8, amended. On a failed probe of a provider the health check sets its flag to false and
  records the time of the check, and changes nothing else of the provider's state.
\<close>

theorem failed_probe_sets_flag_and_time_only:
  assumes "lookup ms k = Some m" and "probes k \<noteq> Response 200"
  shows "lookup (checkModelHealth probes clock ms) k
           = Some (m\<lparr>isHealthy := False, lastHealthCheck := clock k\<rparr>)"
  using assms by (cases "probes k") (simp_all add: lookup_checkModelHealth check_one_def)

theorem failed_probe_sets_flag_and_time_only_witness:
  "lookup (initializeModels 0) ''gemma3'' = Some (snd (hd (initializeModels 0)))
   \<and> probes_down ''gemma3'' \<noteq> Response 200
   \<and> lookup (checkModelHealth probes_down (\<lambda>k. 30000) (initializeModels 0)) ''gemma3''
       = Some ((snd (hd (initializeModels 0)))\<lparr>isHealthy := False, lastHealthCheck := 30000\<rparr>)"
proof -
  have l: "lookup (initializeModels 0) ''gemma3'' = Some (snd (hd (initializeModels 0)))"
    by (simp add: initializeModels_def lookup_def)
  have p: "probes_down ''gemma3'' \<noteq> Response 200" by (simp add: probes_down_def)
  from failed_probe_sets_flag_and_time_only[of "initializeModels 0" "''gemma3''"
          "snd (hd (initializeModels 0))" probes_down "\<lambda>k. 30000", OF l p] l p
  show ?thesis by simp
qed

section \<open>Generation and fallback\<close>



lemma pinned_unhealthy_throws:
  assumes "pin \<noteq> ''auto''" and "lookup ms pin = Some m" and "\<not> isHealthy m"
  shows "generateContent (Suc n) findFallbackModel post during c ms prompt pin type
           = (Some (Inl (NotAFunction ''this.findFallbackModel'')), ms, [])"
proof -
  have "pin \<in> set (map fst ms)"
    using assms(2) unregistered_lookup[of pin ms] by (cases "pin \<in> set (map fst ms)") auto
  then have r: "resolve ms pin type prompt = Some (Own pin)"
    using assms(1) by (simp add: resolve_def property_def)
  have "\<not> is_healthy ms (Own pin)" using assms(2,3) by (simp add: healthy_lookup)
  from as_it_stands_unhealthy[OF r this] show ?thesis .
qed

lemma hf_down_lookup:
  "lookup hf_down ''hfHub''
     = Some ((snd (initializeModels 0 ! 2))\<lparr>isHealthy := False, lastHealthCheck := 30000\<rparr>)"
  "lookup hf_down ''chatterbox''
     = Some ((snd (initializeModels 0 ! 1))\<lparr>lastHealthCheck := 30000\<rparr>)"
  by (simp_all add: hf_down_def checkModelHealth_def check_one_def probes_hf_down_def
      initializeModels_def lookup_def)

lemma hf_down_health: "\<not> healthy hf_down ''hfHub''" "healthy hf_down ''chatterbox''"
  by (simp_all add: healthy_def hf_down_lookup) (simp add: initializeModels_def)

lemma hf_down_resolve_auto:
  "resolve hf_down ''auto'' ''conversation'' ''hello'' = Some (Own ''chatterbox'')"
  by (simp add: resolve_def property_def selectOptimalModel_def score_def lookup_def hf_down_def
      checkModelHealth_def check_one_def probes_hf_down_def initializeModels_def)




text \<open>
  C4, as the claim states it, fails: with every provider unhealthy the selector does not
  fail, it returns its default, the \<open>gemma3\<close> entry.
\<close>

theorem all_unhealthy_select_does_not_fail:
  "\<not> (\<exists>e\<in>set all_unhealthy. isHealthy (snd e))
   \<and> selectOptimalModel all_unhealthy ''conversation'' ''hello'' = Some ''gemma3''"
  by (simp add: all_unhealthy_def selectOptimalModel_def checkModelHealth_def check_one_def
      initializeModels_def lookup_def)

text \<open>
  C4, amended. When every registered provider is unhealthy, the selector returns the
  \<open>gemma3\<close> entry (nothing when there is none). \<open>generateContent\<close>, whatever the
  call to \<open>findFallbackModel\<close> does and for every model string of the request, sends no
  request, leaves the providers as they are and returns no generation; in the class as it
  stands it ends with an error.
\<close>

theorem all_unhealthy_no_network_call:
  assumes "\<forall>e\<in>set ms. \<not> isHealthy (snd e)"
  shows "selectOptimalModel ms type prompt
           = (if ''gemma3'' \<in> set (map fst ms) then Some ''gemma3'' else None)
       \<and> snd (generateContent n fb post during c ms prompt model type) = (ms, [])
       \<and> (\<forall>g. fst (generateContent n fb post during c ms prompt model type) \<noteq> Some (Inr g))
       \<and> (\<exists>e. generateContent (Suc n') findFallbackModel post during c ms prompt model type
                 = (Some (Inl e), ms, []))"
proof -
  note s = select_all_unhealthy[OF assms, of type prompt]
  note g = generateContent_all_unhealthy[OF assms, of n fb post during c prompt model type]
  have e: "\<exists>e. generateContent (Suc n') findFallbackModel post during c ms prompt model type
                 = (Some (Inl e), ms, [])"
  proof (cases "resolve ms model type prompt")
    case None
    from generateContent_not_found[OF this] show ?thesis by blast
  next
    case (Some sel)
    from as_it_stands_unhealthy[OF Some all_unhealthy_never_healthy[OF assms]]
    show ?thesis by blast
  qed
  show ?thesis using s g e by blast
qed

theorem all_unhealthy_no_network_call_witness:
  "\<not> (\<exists>e\<in>set all_unhealthy. isHealthy (snd e))
   \<and> selectOptimalModel all_unhealthy ''general'' ''hello'' = Some ''gemma3''
   \<and> snd (generateContent 7 findFallbackModel always_ok alone 0 all_unhealthy
             ''hello'' ''toString'' ''general'') = (all_unhealthy, [])
   \<and> (\<exists>e. generateContent (Suc 0) findFallbackModel always_ok alone 0 all_unhealthy
             ''hello'' ''auto'' ''general'' = (Some (Inl e), all_unhealthy, []))"
proof -
  have h: "\<forall>e\<in>set all_unhealthy. \<not> isHealthy (snd e)"
    by (simp add: all_unhealthy_def checkModelHealth_def check_one_def initializeModels_def)
  have g: "''gemma3'' \<in> set (map fst all_unhealthy)"
    by (simp add: all_unhealthy_def checkModelHealth_def initializeModels_def)
  note t1 = all_unhealthy_no_network_call[OF h, of "''general''" "''hello''" 7 findFallbackModel
              always_ok alone 0 "''toString''" 0]
  note t2 = all_unhealthy_no_network_call[OF h, of "''general''" "''hello''" 7 findFallbackModel
              always_ok alone 0 "''auto''" 0]
  have a: "selectOptimalModel all_unhealthy ''general'' ''hello'' = Some ''gemma3''"
    using t1 g by simp
  have b: "snd (generateContent 7 findFallbackModel always_ok alone 0 all_unhealthy
             ''hello'' ''toString'' ''general'') = (all_unhealthy, [])"
    using t1 by blast
  have c: "\<exists>e. generateContent (Suc 0) findFallbackModel always_ok alone 0 all_unhealthy
             ''hello'' ''auto'' ''general'' = (Some (Inl e), all_unhealthy, [])"
    using t2 by blast
  show ?thesis using h a b c by blast
qed


text \<open>
  C5. The class as it stands does not do what the claim says. With \<open>hfHub\<close> unhealthy
  and the other two providers healthy, a conversation request pinned to \<open>hfHub\<close> reaches
  the call \<open>this.findFallbackModel(selectedModel)\<close>, which throws; the request ends with
  that error, sent to no provider, and the handler answers 500. The same request without a
  pin is served by \<open>chatterbox\<close>.
\<close>

theorem pinned_unhealthy_request_fails:
  "\<not> healthy hf_down ''hfHub'' \<and> healthy hf_down ''chatterbox''
   \<and> generateContent (Suc (Suc (Suc 0))) findFallbackModel always_ok alone 0 hf_down
        ''hello'' ''hfHub'' ''conversation''
       = (Some (Inl (NotAFunction ''this.findFallbackModel'')), hf_down, [])
   \<and> fst (post_generate (Suc (Suc (Suc 0))) findFallbackModel always_ok alone hf_down
             pinned_request)
       = Some \<lparr>status = 500, error_text = Some ''Generation failed'',
                message_text = Some ''this.findFallbackModel is not a function'',
                payload = None\<rparr>
   \<and> fst (generateContent (Suc (Suc (Suc 0))) findFallbackModel always_ok alone 0 hf_down
             ''hello'' ''auto'' ''conversation'')
       = Some (Inr \<lparr>content = ''ok'', served_by = ''Chatterbox AI''\<rparr>)"
proof -
  have ne: "''hfHub'' \<noteq> ''auto''" by simp
  have nh: "\<not> isHealthy ((snd (initializeModels 0 ! 2))\<lparr>isHealthy := False, lastHealthCheck := 30000\<rparr>)"
    by simp
  note g = pinned_unhealthy_throws[OF ne hf_down_lookup(1) nh, of "Suc (Suc 0)" always_ok alone 0
             "''hello''" "''conversation''"]
  have p: "fst (post_generate (Suc (Suc (Suc 0))) findFallbackModel always_ok alone hf_down
             pinned_request)
       = Some \<lparr>status = 500, error_text = Some ''Generation failed'',
                message_text = Some ''this.findFallbackModel is not a function'',
                payload = None\<rparr>"
    using g by (simp add: post_generate_def pinned_request_def falsy_def del: generateContent.simps)
  have ok: "always_ok 0 ''chatterbox'' = Some ''ok''" by (simp add: always_ok_def)
  have dn: "display_name hf_down ''chatterbox'' = ''Chatterbox AI''"
    by (simp add: display_name_def hf_down_lookup) (simp add: initializeModels_def)
  from generateContent_served[where fb = findFallbackModel and post = always_ok and during = alone
         and n = "Suc (Suc 0)", OF hf_down_resolve_auto hf_down_health(2) ok]
  have u: "fst (generateContent (Suc (Suc (Suc 0))) findFallbackModel always_ok alone 0 hf_down
             ''hello'' ''auto'' ''conversation'')
       = Some (Inr \<lparr>content = ''ok'', served_by = ''Chatterbox AI''\<rparr>)"
    by (simp add: dn del: generateContent.simps)
  show ?thesis using hf_down_health g p u by blast
qed

section \<open>A provider marked healthy again while the request waits\<close>

text \<open>
  With a \<open>findFallbackModel\<close> that returns providers, the condition on what runs
  meanwhile is needed: a tick that marks the failed \<open>gemma3\<close> healthy again while the
  call to \<open>chatterbox\<close> is awaited lets the same request call \<open>gemma3\<close> a second
  time.
\<close>

lemma revived_provider_called_again:
  "snd (snd (generateContent (Suc (Suc (Suc 0))) other_provider always_fails reviving_tick 0
               (initializeModels 0) ''hello'' ''gemma3'' ''general''))
     = [(''gemma3'', False), (''chatterbox'', False), (''gemma3'', False)]"
  by (simp add: resolve_def property_def healthy_def lookup_def initializeModels_def
      other_provider_def always_fails_def reviving_tick_def checkModelHealth_def check_one_def
      probes_up_def take_endpoint_def mark_unhealthy_def update_model_def key_of_def
      split_beta)

section \<open>Requests without a prompt\<close>

text \<open>
  C10, as the claim states it, fails for the RunPod proxy: its handler checks the API key
  first, and without a key a request that lacks a prompt is answered 503.
\<close>

theorem runpod_unconfigured_answers_503:
  "rp_status (fst (runpod_generate None runsync_ok runpod_no_prompt)) = 503
   \<and> rp_error (fst (runpod_generate None runsync_ok runpod_no_prompt))
       = Some ''RunPod API key not configured''"
  by (simp add: runpod_generate_def falsy_def)

text \<open>
  C10, amended. The router's handler answers a request whose prompt is absent or empty with
  400 and "Prompt is required", sends no request to a provider and leaves the providers as
  they are. The RunPod proxy's handler answers such a request with 400 and "Prompt is
  required" when \<open>RUNPOD_API_KEY\<close> is set, and with 503 when it is not; it calls no
  endpoint either way.
\<close>

theorem missing_prompt_rejected:
  "(falsy (body_prompt b) \<longrightarrow>
      post_generate n fb post during ms b
        = (Some \<lparr>status = 400, error_text = Some ''Prompt is required'', message_text = None,
                 payload = None\<rparr>, ms, []))
   \<and> (falsy (rp_prompt rb) \<longrightarrow>
      runpod_generate key runsync rb
        = (if falsy key
           then (\<lparr>rp_status = 503, rp_error = Some ''RunPod API key not configured'',
                   rp_data = None\<rparr>, [])
           else (\<lparr>rp_status = 400, rp_error = Some ''Prompt is required'', rp_data = None\<rparr>, [])))"
  by (simp add: post_generate_def runpod_generate_def)

theorem missing_prompt_rejected_witness:
  "falsy (body_prompt no_prompt)
   \<and> post_generate 5 findFallbackModel always_ok alone (initializeModels 0) no_prompt
        = (Some \<lparr>status = 400, error_text = Some ''Prompt is required'', message_text = None,
                 payload = None\<rparr>, initializeModels 0, [])
   \<and> falsy (rp_prompt runpod_no_prompt)
   \<and> runpod_generate (Some ''key'') runsync_ok runpod_no_prompt
        = (\<lparr>rp_status = 400, rp_error = Some ''Prompt is required'', rp_data = None\<rparr>, [])"
proof -
  have a: "falsy (body_prompt no_prompt)" by (simp add: falsy_def no_prompt_def)
  have b: "falsy (rp_prompt runpod_no_prompt)" by (simp add: falsy_def runpod_no_prompt_def)
  have c: "\<not> falsy (Some ''key'')" by (simp add: falsy_def)
  note t = missing_prompt_rejected[of no_prompt 5 findFallbackModel always_ok alone
             "initializeModels 0" runpod_no_prompt "Some ''key''" runsync_ok]
  from t[THEN conjunct1, THEN mp, OF a] t[THEN conjunct2, THEN mp, OF b] a b c
  show ?thesis by simp
qed

section \<open>Rate limiting\<close>

lemma consume_other: "ip' \<noteq> ip \<Longrightarrow> snd (consume st now ip') ip = st ip"
  by (simp add: consume_def split: option.splits)

lemma rateLimit_other: "ip' \<noteq> ip \<Longrightarrow> snd (rateLimit st now ip') ip = st ip"
  using consume_other[of ip' ip st now]
  by (cases "consume st now ip'") (auto simp: rateLimit_def split: bool.splits)

lemma rateLimit_admit:
  assumes "st ip = Some \<lparr>windowStart = t0, count = c\<rparr>" and "now \<le> t0 + duration"
    and "c < points"
  shows "rateLimit st now ip = (None, st(ip \<mapsto> \<lparr>windowStart = t0, count = Suc c\<rparr>))"
  using assms by (simp add: rateLimit_def consume_def)

lemma rateLimit_reject:
  assumes "st ip = Some \<lparr>windowStart = t0, count = c\<rparr>" and "now \<le> t0 + duration"
    and "points \<le> c"
  shows "rateLimit st now ip
           = (Some \<lparr>status = 429, error_text = Some ''Too Many Requests'',
                     message_text = Some ''Rate limit exceeded. Please try again later.'',
                     payload = None\<rparr>, st)"
  using assms by (simp add: rateLimit_def consume_def)

lemma rateLimit_new_window:
  assumes "st ip = Some \<lparr>windowStart = t0, count = c\<rparr>" and "t0 + duration < now"
  shows "rateLimit st now ip = (None, st(ip \<mapsto> \<lparr>windowStart = now, count = 1\<rparr>))"
  using assms by (simp add: rateLimit_def consume_def)

lemma rateLimit_first:
  assumes "st ip = None"
  shows "rateLimit st now ip = (None, st(ip \<mapsto> \<lparr>windowStart = now, count = 1\<rparr>))"
  using assms by (simp add: rateLimit_def consume_def)

lemma admissions_same_window:
  assumes "st ip = Some \<lparr>windowStart = t0, count = c\<rparr>"
    and "\<forall>r\<in>set rs. snd r = ip \<longrightarrow> fst r \<le> t0 + duration"
    and "c + length (filter (\<lambda>r. snd r = ip) rs) \<le> points"
  shows "snd (admissions st rs) ip
           = Some \<lparr>windowStart = t0, count = c + length (filter (\<lambda>r. snd r = ip) rs)\<rparr>
       \<and> length (fst (admissions st rs)) = length rs
       \<and> (\<forall>i<length rs. snd (rs ! i) = ip \<longrightarrow> fst (admissions st rs) ! i = None)"
  using assms
proof (induction rs arbitrary: st c)
  case Nil
  then show ?case by simp
next
  case (Cons r rs)
  obtain now ip' where r: "r = (now, ip')" by (cases r)
  obtain a st1 where rl: "rateLimit st now ip' = (a, st1)" by (cases "rateLimit st now ip'")
  obtain as st2 where ad: "admissions st1 rs = (as, st2)" by (cases "admissions st1 rs")
  have whole: "admissions st (r # rs) = (a # as, st2)" using r rl ad by simp
  show ?case
  proof (cases "ip' = ip")
    case True
    have "now \<le> t0 + duration" using Cons.prems(2) r True by simp
    moreover have "c < points" using Cons.prems(3) r True by simp
    ultimately have e: "a = None" "st1 = st(ip \<mapsto> \<lparr>windowStart = t0, count = Suc c\<rparr>)"
      using rateLimit_admit[of st ip t0 c now, OF Cons.prems(1)] rl True by auto
    have s1: "st1 ip = Some \<lparr>windowStart = t0, count = Suc c\<rparr>" using e by simp
    have w: "\<forall>r\<in>set rs. snd r = ip \<longrightarrow> fst r \<le> t0 + duration" using Cons.prems(2) by simp
    have l: "Suc c + length (filter (\<lambda>r. snd r = ip) rs) \<le> points"
      using Cons.prems(3) r True by simp
    note ih = Cons.IH[of st1 "Suc c", OF s1 w l]
    have ih3: "\<forall>i<length rs. snd (rs ! i) = ip \<longrightarrow> as ! i = None" using ih ad by simp
    have p1: "snd (admissions st (r # rs)) ip
           = Some \<lparr>windowStart = t0, count = c + length (filter (\<lambda>r. snd r = ip) (r # rs))\<rparr>"
      using ih whole ad r True by simp
    have p2: "length (fst (admissions st (r # rs))) = length (r # rs)"
      using ih whole ad by simp
    have p3: "\<forall>i<length (r # rs). snd ((r # rs) ! i) = ip \<longrightarrow> fst (admissions st (r # rs)) ! i = None"
    proof (intro allI impI)
      fix i assume "i < length (r # rs)" "snd ((r # rs) ! i) = ip"
      then show "fst (admissions st (r # rs)) ! i = None"
        using whole ih3 e(1) by (cases i) simp_all
    qed
    show ?thesis using p1 p2 p3 by blast
  next
    case False
    have s1: "st1 ip = Some \<lparr>windowStart = t0, count = c\<rparr>"
      using rateLimit_other[OF False, of st now] rl Cons.prems(1) by simp
    have w: "\<forall>r\<in>set rs. snd r = ip \<longrightarrow> fst r \<le> t0 + duration" using Cons.prems(2) by simp
    have l: "c + length (filter (\<lambda>r. snd r = ip) rs) \<le> points"
      using Cons.prems(3) r False by simp
    note ih = Cons.IH[of st1 c, OF s1 w l]
    have ih3: "\<forall>i<length rs. snd (rs ! i) = ip \<longrightarrow> as ! i = None" using ih ad by simp
    have p1: "snd (admissions st (r # rs)) ip
           = Some \<lparr>windowStart = t0, count = c + length (filter (\<lambda>r. snd r = ip) (r # rs))\<rparr>"
      using ih whole ad r False by simp
    have p2: "length (fst (admissions st (r # rs))) = length (r # rs)"
      using ih whole ad by simp
    have p3: "\<forall>i<length (r # rs). snd ((r # rs) ! i) = ip \<longrightarrow> fst (admissions st (r # rs)) ! i = None"
    proof (intro allI impI)
      fix i assume "i < length (r # rs)" "snd ((r # rs) ! i) = ip"
      then show "fst (admissions st (r # rs)) ! i = None"
        using whole ih3 r False by (cases i) simp_all
    qed
    show ?thesis using p1 p2 p3 by blast
  qed
qed


lemma filter_replicate_same:
  "length (filter (\<lambda>r. snd r = ip) (replicate n (t, ip))) = n"
  by (induction n) simp_all

text \<open>
  C7. With the limiter of section 4.3 and the router's constants (100 requests, 60
  seconds): a caller without a record makes a first request at \<open>t0\<close> and 99 more
  within the window, in between the requests of any other callers; all 100 pass. Its next
  request within the window is answered 429 by the middleware and changes nothing; a
  request after the window has expired passes and sets the count to 1.
\<close>

theorem fixed_window_limit:
  assumes "st ip = None"
    and "length (filter (\<lambda>r. snd r = ip) rs) = 99"
    and "\<forall>r\<in>set rs. snd r = ip \<longrightarrow> fst r \<le> t0 + duration"
    and "t \<le> t0 + duration"
    and "t0 + duration < t'"
  shows "length (fst (admissions st ((t0, ip) # rs))) = Suc (length rs)
       \<and> (\<forall>i<Suc (length rs). snd (((t0, ip) # rs) ! i) = ip \<longrightarrow>
             fst (admissions st ((t0, ip) # rs)) ! i = None)
       \<and> rateLimit (snd (admissions st ((t0, ip) # rs))) t ip
           = (Some \<lparr>status = 429, error_text = Some ''Too Many Requests'',
                     message_text = Some ''Rate limit exceeded. Please try again later.'',
                     payload = None\<rparr>, snd (admissions st ((t0, ip) # rs)))
       \<and> rateLimit (snd (admissions st ((t0, ip) # rs))) t' ip
           = (None, (snd (admissions st ((t0, ip) # rs)))(ip \<mapsto> \<lparr>windowStart = t', count = 1\<rparr>))"
proof -
  let ?st1 = "st(ip \<mapsto> \<lparr>windowStart = t0, count = 1\<rparr>)"
  obtain as st2 where ad: "admissions ?st1 rs = (as, st2)" by (cases "admissions ?st1 rs")
  have whole: "admissions st ((t0, ip) # rs) = (None # as, st2)"
    using rateLimit_first[of st ip t0, OF assms(1)] ad by simp
  have s1: "?st1 ip = Some \<lparr>windowStart = t0, count = 1\<rparr>" by simp
  have l: "1 + length (filter (\<lambda>r. snd r = ip) rs) \<le> points"
    using assms(2) by (simp add: points_def)
  note w = admissions_same_window[of ?st1 ip t0 1 rs, OF s1 assms(3) l]
  have w3: "\<forall>i<length rs. snd (rs ! i) = ip \<longrightarrow> as ! i = None" using w ad by simp
  have s2: "st2 ip = Some \<lparr>windowStart = t0, count = 100\<rparr>"
    using w ad assms(2) by simp
  have p1: "length (fst (admissions st ((t0, ip) # rs))) = Suc (length rs)"
    using w ad whole by simp
  have p2: "\<forall>i<Suc (length rs). snd (((t0, ip) # rs) ! i) = ip \<longrightarrow>
             fst (admissions st ((t0, ip) # rs)) ! i = None"
  proof (intro allI impI)
    fix i assume "i < Suc (length rs)" "snd (((t0, ip) # rs) ! i) = ip"
    then show "fst (admissions st ((t0, ip) # rs)) ! i = None"
      using whole w3 by (cases i) simp_all
  qed
  have p3: "rateLimit (snd (admissions st ((t0, ip) # rs))) t ip
           = (Some \<lparr>status = 429, error_text = Some ''Too Many Requests'',
                     message_text = Some ''Rate limit exceeded. Please try again later.'',
                     payload = None\<rparr>, snd (admissions st ((t0, ip) # rs)))"
    using rateLimit_reject[of st2 ip t0 100 t, OF s2 assms(4)] whole by (simp add: points_def)
  have p4: "rateLimit (snd (admissions st ((t0, ip) # rs))) t' ip
           = (None, (snd (admissions st ((t0, ip) # rs)))(ip \<mapsto> \<lparr>windowStart = t', count = 1\<rparr>))"
    using rateLimit_new_window[of st2 ip t0 100 t', OF s2 assms(5)] whole by simp
  show ?thesis using p1 p2 p3 p4 by blast
qed


theorem fixed_window_limit_witness:
  "(Map.empty :: limiter) ''10.0.0.7'' = None
   \<and> length (filter (\<lambda>r. snd r = ''10.0.0.7'') burst) = 99
   \<and> \<not> (\<exists>r\<in>set burst. snd r = ''10.0.0.7'' \<and> 0 + duration < fst r)
   \<and> 60 \<le> 0 + duration
   \<and> 0 + duration < 61
   \<and> fst (rateLimit (snd (admissions Map.empty ((0, ''10.0.0.7'') # burst))) 60 ''10.0.0.7'')
       = Some \<lparr>status = 429, error_text = Some ''Too Many Requests'',
                message_text = Some ''Rate limit exceeded. Please try again later.'',
                payload = None\<rparr>
   \<and> fst (rateLimit (snd (admissions Map.empty ((0, ''10.0.0.7'') # burst))) 61 ''10.0.0.7'')
       = None"
proof -
  have h1: "(Map.empty :: limiter) ''10.0.0.7'' = None" by simp
  have h2: "length (filter (\<lambda>r. snd r = ''10.0.0.7'') burst) = 99"
    unfolding burst_def by (rule filter_replicate_same)
  have h3: "\<forall>r\<in>set burst. snd r = ''10.0.0.7'' \<longrightarrow> fst r \<le> 0 + duration"
    by (simp add: burst_def duration_def)
  have h3': "\<not> (\<exists>r\<in>set burst. snd r = ''10.0.0.7'' \<and> 0 + duration < fst r)"
    using h3 by (auto simp: not_less)
  have h4: "60 \<le> 0 + duration" by (simp add: duration_def)
  have h5: "0 + duration < 61" by (simp add: duration_def)
  note t = fixed_window_limit[of Map.empty "''10.0.0.7''" burst 0 60 61, OF h1 h2 h3 h4 h5]
  have a: "fst (rateLimit (snd (admissions Map.empty ((0, ''10.0.0.7'') # burst))) 60 ''10.0.0.7'')
       = Some \<lparr>status = 429, error_text = Some ''Too Many Requests'',
                message_text = Some ''Rate limit exceeded. Please try again later.'',
                payload = None\<rparr>"
    using t[THEN conjunct2, THEN conjunct2, THEN conjunct1] by (simp only: fst_conv)
  have b: "fst (rateLimit (snd (admissions Map.empty ((0, ''10.0.0.7'') # burst))) 61 ''10.0.0.7'')
       = None"
    using t[THEN conjunct2, THEN conjunct2, THEN conjunct2] by (simp only: fst_conv)
  show ?thesis using h1 h2 h3' h4 h5 a b by blast
qed

end
